theory Spec2Isabelle
  imports Main "HOL-Library.AList"
begin

section \<open>Python string operations used by the module\<close>

text \<open>\<^verbatim>\<open>s.startswith(p)\<close> and \<^verbatim>\<open>s.endswith(p)\<close>.\<close>

definition startswith :: "string \<Rightarrow> string \<Rightarrow> bool" where
  "startswith s p = (take (length p) s = p)"

definition endswith :: "string \<Rightarrow> string \<Rightarrow> bool" where
  "endswith s p = (length p \<le> length s \<and> drop (length s - length p) s = p)"

text \<open>\<^verbatim>\<open>sub in s\<close> on strings: \<open>sub\<close> occurs somewhere in \<open>s\<close>.\<close>

fun is_in :: "string \<Rightarrow> string \<Rightarrow> bool" where
  "is_in sub [] = (sub = [])"
| "is_in sub (c # cs) = (startswith (c # cs) sub \<or> is_in sub cs)"

text \<open>
  \<^verbatim>\<open>s.replace(old, new)\<close>: every occurrence of \<open>old\<close>, found from the left and
  not overlapping, is replaced. With an empty \<open>old\<close> Python puts \<open>new\<close> before every
  character and at the end.
\<close>

function str_replace :: "string \<Rightarrow> string \<Rightarrow> string \<Rightarrow> string" where
  "str_replace old new s =
     (if old = [] then new @ concat (map (\<lambda>c. c # new) s)
      else if s = [] then []
      else if startswith s old then new @ str_replace old new (drop (length old) s)
      else hd s # str_replace old new (tl s))"
  by pat_completeness auto
termination
  by (relation "measure (\<lambda>(old, new, s). length s)") (auto simp: startswith_def)

declare str_replace.simps [simp del]

text \<open>\<^verbatim>\<open>"\n".join(lines)\<close> and \<^verbatim>\<open>text.split("\n")\<close>.\<close>

fun join_nl :: "string list \<Rightarrow> string" where
  "join_nl [] = []"
| "join_nl [l] = l"
| "join_nl (l # m # ls) = l @ CHR 0x0A # join_nl (m # ls)"

fun split_nl :: "string \<Rightarrow> string list" where
  "split_nl [] = [[]]"
| "split_nl (c # cs) =
     (if c = CHR 0x0A then [] # split_nl cs
      else (case split_nl cs of [] \<Rightarrow> [[c]] | l # ls \<Rightarrow> (c # l) # ls))"

text \<open>
  Iterating over an open text file: the lines of the file, each with its terminating
  newline (the last one without, when the file does not end in a newline).
\<close>

fun file_lines :: "string \<Rightarrow> string list" where
  "file_lines [] = []"
| "file_lines (c # cs) =
     (if c = CHR 0x0A then [c] # file_lines cs
      else (case file_lines cs of [] \<Rightarrow> [[c]] | l # ls \<Rightarrow> (c # l) # ls))"

text \<open>\<^verbatim>\<open>line.split("=", 1)\<close>: at most one split, at the first \<open>=\<close>.\<close>

definition split_eq :: "string \<Rightarrow> string list" where
  "split_eq s =
     (case dropWhile (\<lambda>c. c \<noteq> CHR ''='') s of
        [] \<Rightarrow> [s]
      | _ # rest \<Rightarrow> [takeWhile (\<lambda>c. c \<noteq> CHR ''='') s, rest])"

text \<open>\<^verbatim>\<open>s.strip("\n")\<close>: newlines removed at both ends.\<close>

definition strip_nl :: "string \<Rightarrow> string" where
  "strip_nl s =
     rev (dropWhile (\<lambda>c. c = CHR 0x0A) (rev (dropWhile (\<lambda>c. c = CHR 0x0A) s)))"

text \<open>
  Modelled from the spec: \<^verbatim>\<open>util.string.append\<close> (imported as \<^verbatim>\<open>strappend\<close>) is not
  part of the sources. The specification of the path normalizer says that it appends
  exactly one trailing separator if none is present and never yields a doubled one.
\<close>

definition strappend :: "string \<Rightarrow> string \<Rightarrow> string" where
  "strappend s suffix = (if endswith s suffix then s else s @ suffix)"

text \<open>
  The scheme unification that \<^verbatim>\<open>write_transfer_script\<close> applies to each of its four
  paths: \<^verbatim>\<open>.replace("s3a:", "s3:").replace("s3n:", "s3:")\<close>.
\<close>

definition normalize_path :: "string \<Rightarrow> string" where
  "normalize_path p = str_replace ''s3n:'' ''s3:'' (str_replace ''s3a:'' ''s3:'' p)"


section \<open>Errors, the configuration document and the state of a run\<close>

datatype error =
    SystemExit nat
  | UnboundLocalError string
  | AttributeError
  | IndexError
  | ExternalError string

datatype log_entry = LogLine string | ErrorLine string

record written_file =
  file_name :: string
  file_content :: string
  file_mode :: "nat option"

text \<open>
  The state of a \<^verbatim>\<open>ConfigSetter\<close>: the ordered \<^verbatim>\<open>environment\<close> table (an
  \<^verbatim>\<open>OrderedDict\<close>: a new key goes last, an old key keeps its place), what the logger
  received, and the files written so far.
\<close>

record state =
  environment :: "(string \<times> string) list"
  logs :: "log_entry list"
  files :: "written_file list"

text \<open>An exception leaves the state as it was when it was raised.\<close>

type_synonym outcome = "error \<times> state + state"

definition set_env :: "string \<Rightarrow> string \<Rightarrow> state \<Rightarrow> state" where
  "set_env k v st = st\<lparr>environment := AList.update k v (environment st)\<rparr>"

definition log_line :: "string \<Rightarrow> state \<Rightarrow> state" where
  "log_line msg st = st\<lparr>logs := logs st @ [LogLine msg]\<rparr>"

definition log_error :: "string \<Rightarrow> state \<Rightarrow> state" where
  "log_error msg st = st\<lparr>logs := logs st @ [ErrorLine msg]\<rparr>"

definition write_file :: "string \<Rightarrow> string \<Rightarrow> nat option \<Rightarrow> state \<Rightarrow> state" where
  "write_file name text_written mode st =
     st\<lparr>files := files st @
       [\<lparr>file_name = name, file_content = text_written, file_mode = mode\<rparr>]\<rparr>"

text \<open>
  The entity catalog: a dictionary from entity names to entities. A flat entity is a
  dictionary that may hold a \<^verbatim>\<open>sourceFiles\<close> list; the entity named \<^verbatim>\<open>kpis\<close> is a
  list of such dictionaries.
\<close>

type_synonym file_dict = "(string \<times> string list) list"

datatype entity = FlatEntity file_dict | GroupedEntity "file_dict list"

record couchbase_section =
  cb_bucket :: "string option"
  cb_index :: "string option"
  cb_statistics :: "string option"

record s3_section =
  s3_endpoint :: "string option"
  s3_accesskey :: "string option"
  s3_secretkey :: "string option"

record ssh_entry =
  ssh_key :: "string option"
  ssh_filename :: "string option"

record general_section =
  general_client :: "string option"
  general_couchbase :: "couchbase_section option"
  general_s3 :: "s3_section option"
  general_ssh :: "(string \<times> ssh_entry) list option"

record paths_section =
  paths_source :: "string option"
  paths_intermediate :: "string option"
  paths_final :: "string option"

record internal_section =
  internal_temporary :: "string option"

record processing_section =
  processing_entities :: "(string \<times> entity) list option"
  processing_paths :: "paths_section option"
  processing_internal :: "internal_section option"

record config =
  cfg_general :: "general_section option"
  cfg_processing :: "processing_section option"

text \<open>
  What a run reads from outside: the process environment, the directory of the module,
  the home directory, the text of \<^verbatim>\<open>~/.bashrc\<close> (the file is taken to exist, and
  every file to be writable), the configuration document that \<^verbatim>\<open>read_config\<close> returns
  (its leaves are strings), and two parts of the repository that are not in the sources:
  \<^verbatim>\<open>Configuration.get_local_path\<close>, and what \<^verbatim>\<open>strappend\<close> does when it is handed the
  empty dictionary that is the default of the source and intermediate paths.
\<close>

record world =
  environ :: "string \<rightharpoonup> string"
  module_path :: string
  home_directory :: string
  bashrc :: string
  read_config :: config
  get_local_path :: "processing_section \<Rightarrow> string \<Rightarrow> string"
  strappend_of_dict :: "error + string"

text \<open>\<^verbatim>\<open>os.environ.get(name, default)\<close>.\<close>

definition environ_get :: "(string \<rightharpoonup> string) \<Rightarrow> string \<Rightarrow> string \<Rightarrow> string" where
  "environ_get env name dflt = (case env name of None \<Rightarrow> dflt | Some v \<Rightarrow> v)"

text \<open>\<^verbatim>\<open>self.environment.get(name, default)\<close>.\<close>

definition environment_get :: "(string \<times> string) list \<Rightarrow> string \<Rightarrow> string \<Rightarrow> string" where
  "environment_get table name dflt = (case map_of table name of None \<Rightarrow> dflt | Some v \<Rightarrow> v)"


section \<open>check_prerequisites and the constructor\<close>

definition prerequisite_environment_variables :: "string list" where
  "prerequisite_environment_variables =
     [''CB_HOST'', ''CB_USER'', ''CB_PASSWORD'', ''CB_BUCKET'', ''C360_ENVIRONMENT'',
      ''PROCESS_DATE'', ''ENCRYPTION_KEY'']"

text \<open>
  \<^verbatim>\<open>not os.environ.get(variable, None)\<close>: true when the variable is not in the process
  environment, and also when its value is the empty string.
\<close>

definition is_missing :: "(string \<rightharpoonup> string) \<Rightarrow> string \<Rightarrow> bool" where
  "is_missing env variable = (case env variable of None \<Rightarrow> True | Some v \<Rightarrow> v = [])"

definition missing_message :: "string \<Rightarrow> log_entry" where
  "missing_message variable = LogLine (''Missing environment variable '' @ variable)"

fun check_loop :: "(string \<rightharpoonup> string) \<Rightarrow> string list \<Rightarrow> nat \<times> state \<Rightarrow> nat \<times> state" where
  "check_loop env [] acc = acc"
| "check_loop env (variable # rest) (missing_variables, st) =
     (if is_missing env variable
      then check_loop env rest
             (missing_variables + 1, st\<lparr>logs := logs st @ [missing_message variable]\<rparr>)
      else check_loop env rest
             (missing_variables, set_env variable (environ_get env variable []) st))"

definition check_prerequisites :: "(string \<rightharpoonup> string) \<Rightarrow> state \<Rightarrow> nat \<times> state" where
  "check_prerequisites env st = check_loop env prerequisite_environment_variables (0, st)"

text \<open>
  The constructor up to the prerequisite check: the table starts with
  \<^verbatim>\<open>PYTHONIOENCODING\<close>, gets \<^verbatim>\<open>PATH\<close> when the module's directory is not in the
  process's \<^verbatim>\<open>PATH\<close>, and the process exits with status 1 when a prerequisite is missing.
\<close>

definition initial_state :: "world \<Rightarrow> state" where
  "initial_state w =
     (let st0 = \<lparr>environment = [(''PYTHONIOENCODING'', ''utf8'')], logs = [], files = []\<rparr>
      in if \<not> is_in (module_path w) (environ_get (environ w) ''PATH'' [])
         then set_env ''PATH'' (''${PATH}:'' @ module_path w) st0
         else st0)"

definition init :: "world \<Rightarrow> outcome" where
  "init w =
     (let checked = check_prerequisites (environ w) (initial_state w)
      in if fst checked > 0 then Inl (SystemExit 1, snd checked) else Inr (snd checked))"


section \<open>assemble_environment\<close>

definition and_then :: "error + 'a \<Rightarrow> ('a \<Rightarrow> error + 'b) \<Rightarrow> error + 'b" where
  "and_then m f = (case m of Inl e \<Rightarrow> Inl e | Inr x \<Rightarrow> f x)"

definition then_run :: "outcome \<Rightarrow> (state \<Rightarrow> outcome) \<Rightarrow> outcome" where
  "then_run r f = (case r of Inl x \<Rightarrow> Inl x | Inr st \<Rightarrow> f st)"

text \<open>\<^verbatim>\<open>d.get(key, default)\<close> on a dictionary whose entry is present or absent.\<close>

definition get_or :: "'a option \<Rightarrow> 'a \<Rightarrow> 'a" where
  "get_or entry dflt = (case entry of None \<Rightarrow> dflt | Some v \<Rightarrow> v)"

text \<open>\<^verbatim>\<open>xs[i]\<close>, which raises \<^verbatim>\<open>IndexError\<close> out of range.\<close>

definition item :: "'a list \<Rightarrow> nat \<Rightarrow> error + 'a" where
  "item xs i = (if i < length xs then Inr (xs ! i) else Inl IndexError)"

text \<open>\<^verbatim>\<open>line.split("=", 1)[1].strip("\n")\<close>.\<close>

definition value_of_line :: "string \<Rightarrow> error + string" where
  "value_of_line line = and_then (item (split_eq line) 1) (\<lambda>v. Inr (strip_nl v))"

text \<open>
  The three local variables of the loop over \<^verbatim>\<open>~/.bashrc\<close>. \<^verbatim>\<open>spark_host\<close> and
  \<^verbatim>\<open>spark_port\<close> start as the empty string; \<^verbatim>\<open>spark_master\<close> is not assigned before
  the loop, so it is unbound (\<open>None\<close>) until a line assigns it.
\<close>

record spark_vars =
  spark_host :: string
  spark_port :: string
  spark_master :: "string option"

definition parse_line :: "spark_vars \<Rightarrow> string \<Rightarrow> error + spark_vars" where
  "parse_line v line =
     and_then
       (if is_in ''SPARK_MASTER_HOST='' line
        then and_then (value_of_line line) (\<lambda>x. Inr (v\<lparr>spark_host := x\<rparr>))
        else Inr v)
       (\<lambda>v1. and_then
          (if is_in ''SPARK_MASTER_PORT='' line
           then and_then (value_of_line line) (\<lambda>x. Inr (v1\<lparr>spark_port := x\<rparr>))
           else Inr v1)
          (\<lambda>v2.
             if is_in ''SPARK_MASTER='' line
             then and_then (value_of_line line) (\<lambda>x. Inr (v2\<lparr>spark_master := Some x\<rparr>))
             else Inr v2))"

fun parse_lines :: "spark_vars \<Rightarrow> string list \<Rightarrow> error + spark_vars" where
  "parse_lines v [] = Inr v"
| "parse_lines v (line # rest) = and_then (parse_line v line) (\<lambda>v'. parse_lines v' rest)"

definition parse_bashrc :: "string \<Rightarrow> error + spark_vars" where
  "parse_bashrc text_read =
     parse_lines \<lparr>spark_host = [], spark_port = [], spark_master = None\<rparr>
       (file_lines text_read)"

text \<open>
  The decision after the loop. Reading the unbound \<^verbatim>\<open>spark_master\<close> raises
  \<^verbatim>\<open>UnboundLocalError\<close>. The result is the value stored under \<^verbatim>\<open>SPARK_MASTER\<close>.
\<close>

definition build_spark_master :: "spark_vars \<Rightarrow> state \<Rightarrow> error \<times> state + string \<times> state" where
  "build_spark_master v st =
     (case spark_master v of
        None \<Rightarrow> Inl (UnboundLocalError ''spark_master'', st)
      | Some m \<Rightarrow>
          if m \<noteq> [] \<and> \<not> is_in ''$'' m
          then Inr (str_replace ''$SPARK_MASTER_PORT'' (spark_port v)
                      (str_replace ''$SPARK_MASTER_HOST'' (spark_host v) m), st)
          else if spark_host v \<noteq> [] \<and> spark_port v \<noteq> []
          then Inr (''spark://'' @ spark_host v @ '':'' @ spark_port v, st)
          else Inr (m,
                 log_error ''Cannot build spark master.''
                   (log_line (''spark master: '' @ m)
                     (log_line (''spark port: '' @ spark_port v)
                       (log_line (''spark host: '' @ spark_host v) st)))))"

text \<open>\<^verbatim>\<open>self.config.get("general", {})\<close> and the other sections, empty when absent.\<close>

definition general_of :: "config \<Rightarrow> general_section" where
  "general_of c =
     get_or (cfg_general c)
       \<lparr>general_client = None, general_couchbase = None, general_s3 = None,
        general_ssh = None\<rparr>"

definition couchbase_of :: "config \<Rightarrow> couchbase_section" where
  "couchbase_of c =
     get_or (general_couchbase (general_of c))
       \<lparr>cb_bucket = None, cb_index = None, cb_statistics = None\<rparr>"

definition s3_of :: "config \<Rightarrow> s3_section" where
  "s3_of c =
     get_or (general_s3 (general_of c))
       \<lparr>s3_endpoint = None, s3_accesskey = None, s3_secretkey = None\<rparr>"

definition processing_of :: "config \<Rightarrow> processing_section" where
  "processing_of c =
     get_or (cfg_processing c)
       \<lparr>processing_entities = None, processing_paths = None, processing_internal = None\<rparr>"

definition paths_of :: "config \<Rightarrow> paths_section" where
  "paths_of c =
     get_or (processing_paths (processing_of c))
       \<lparr>paths_source = None, paths_intermediate = None, paths_final = None\<rparr>"

definition internal_of :: "config \<Rightarrow> internal_section" where
  "internal_of c =
     get_or (processing_internal (processing_of c)) \<lparr>internal_temporary = None\<rparr>"

text \<open>
  \<^verbatim>\<open>strappend(paths.get(name, {}), "/")\<close>: the stored string with its separator, or
  whatever \<^verbatim>\<open>strappend\<close> does with the empty dictionary when the path is absent.
\<close>

definition strappend_or_dict :: "world \<Rightarrow> string option \<Rightarrow> error + string" where
  "strappend_or_dict w entry =
     (case entry of None \<Rightarrow> strappend_of_dict w | Some s \<Rightarrow> Inr (strappend s ''/''))"

definition set_env_result :: "string \<Rightarrow> error + string \<Rightarrow> state \<Rightarrow> outcome" where
  "set_env_result k r st = (case r of Inl e \<Rightarrow> Inl (e, st) | Inr v \<Rightarrow> Inr (set_env k v st))"

text \<open>A run of assignments \<^verbatim>\<open>self.environment[k] = v\<close>, in the order of the list.\<close>

definition set_all :: "(string \<times> string) list \<Rightarrow> state \<Rightarrow> state" where
  "set_all kvs st = fold (\<lambda>(k, v). set_env k v) kvs st"

text \<open>The keys resolved from the process environment, the configuration and a default.\<close>

definition assemble_lookups :: "world \<Rightarrow> state \<Rightarrow> state" where
  "assemble_lookups w st =
     (let env = environ w; c = read_config w in
      set_all
        [(''C360_CLIENT'',
            environ_get env ''C360_CLIENT''
              (get_or (general_client (general_of c)) (environ_get env ''C360_ENVIRONMENT'' []))),
         (''CB_DATA_BUCKET'',
            environ_get env ''CB_DATA_BUCKET'' (get_or (cb_bucket (couchbase_of c)) ''c360'')),
         (''CB_INDEX_BUCKET'',
            environ_get env ''CB_INDEX_BUCKET'' (get_or (cb_index (couchbase_of c)) ''c360'')),
         (''CB_STATISTICS_BUCKET'',
            environ_get env ''CB_STATISTICS_BUCKET''
              (get_or (cb_statistics (couchbase_of c)) ''c360_statistics'')),
         (''S3_ENDPOINT'',
            environ_get env ''S3_ENDPOINT'' (get_or (s3_endpoint (s3_of c)) [])),
         (''S3_ACCESSKEY'',
            environ_get env ''S3_ACCESSKEY'' (get_or (s3_accesskey (s3_of c)) [])),
         (''S3_SECRETKEY'',
            environ_get env ''S3_SECRETKEY'' (get_or (s3_secretkey (s3_of c)) ''ignored''))]
        st)"

text \<open>
  The path keys, each assigned from the configuration alone: the process environment
  is not read for them.
\<close>

definition assemble_paths :: "world \<Rightarrow> state \<Rightarrow> outcome" where
  "assemble_paths w st =
     (let c = read_config w in
      then_run (set_env_result ''C360_SOURCE_PATH''
                  (strappend_or_dict w (paths_source (paths_of c))) st) (\<lambda>st1.
      then_run (set_env_result ''C360_INTERMEDIATE_PATH''
                  (strappend_or_dict w (paths_intermediate (paths_of c))) st1) (\<lambda>st2.
      Inr (set_all
            [(''C360_TARGET_PATH'', strappend (get_or (paths_final (paths_of c)) []) ''/''),
             (''C360_TEMP_PATH'',
                strappend (get_or (internal_temporary (internal_of c)) []) ''/''),
             (''C360_LOCAL_SOURCE_PATH'',
                strappend (get_local_path w (processing_of c) ''source'') ''/''),
             (''C360_LOCAL_INTERMEDIATE_PATH'',
                strappend (get_local_path w (processing_of c) ''intermediate'') ''/''),
             (''C360_LOCAL_TARGET_PATH'',
                strappend (get_local_path w (processing_of c) ''final'') ''/'')]
            st2))))"

definition assemble_environment :: "world \<Rightarrow> state \<Rightarrow> outcome" where
  "assemble_environment w st =
     (case parse_bashrc (bashrc w) of
        Inl e \<Rightarrow> Inl (e, st)
      | Inr v \<Rightarrow>
          (case build_spark_master v st of
             Inl x \<Rightarrow> Inl x
           | Inr (m, st1) \<Rightarrow>
               assemble_paths w (assemble_lookups w (set_env ''SPARK_MASTER'' m st1))))"


text \<open>
  The assignments of \<^verbatim>\<open>assemble_paths\<close> when both calls of \<^verbatim>\<open>strappend\<close> on a
  stored or absent path return: \<open>s\<close> and \<open>i\<close> are what they return.
\<close>

definition path_assignments :: "world \<Rightarrow> string \<Rightarrow> string \<Rightarrow> (string \<times> string) list" where
  "path_assignments w s i =
     [(''C360_SOURCE_PATH'', s),
      (''C360_INTERMEDIATE_PATH'', i),
      (''C360_TARGET_PATH'',
         strappend (get_or (paths_final (paths_of (read_config w))) []) ''/''),
      (''C360_TEMP_PATH'',
         strappend (get_or (internal_temporary (internal_of (read_config w))) []) ''/''),
      (''C360_LOCAL_SOURCE_PATH'',
         strappend (get_local_path w (processing_of (read_config w)) ''source'') ''/''),
      (''C360_LOCAL_INTERMEDIATE_PATH'',
         strappend (get_local_path w (processing_of (read_config w)) ''intermediate'') ''/''),
      (''C360_LOCAL_TARGET_PATH'',
         strappend (get_local_path w (processing_of (read_config w)) ''final'') ''/'')]"


section \<open>The writers\<close>

text \<open>
  \<^verbatim>\<open>write_config\<close>: one \<^verbatim>\<open>export\<close> line for each key of the table, in the order of the
  table; the values of \<^verbatim>\<open>CB_PASSWORD\<close> and \<^verbatim>\<open>ENCRYPTION_KEY\<close> between single quotes,
  every other value between double quotes.
\<close>

definition quotes_of :: "string \<Rightarrow> string" where
  "quotes_of variable =
     (if variable \<in> set [''CB_PASSWORD'', ''ENCRYPTION_KEY''] then [CHR 0x27] else [CHR 0x22])"

definition config_line :: "string \<Rightarrow> string \<Rightarrow> string" where
  "config_line variable v =
     ''export '' @ variable @ ''='' @ quotes_of variable @ v @ quotes_of variable @ [CHR 0x0A]"

definition config_text :: "(string \<times> string) list \<Rightarrow> string" where
  "config_text table =
     concat (map (\<lambda>variable. config_line variable (environment_get table variable []))
               (map fst table))"

definition write_config :: "world \<Rightarrow> state \<Rightarrow> state" where
  "write_config w st =
     log_line ''environment written to ~/.c360cfg''
       (write_file (home_directory w @ ''/.c360cfg'') (config_text (environment st)) None st)"

definition s3_config_lines :: "(string \<times> string) list \<Rightarrow> string list" where
  "s3_config_lines table =
     (let endpoint = environment_get table ''S3_ENDPOINT'' [];
          endpoint = (if startswith endpoint ''https://'' then drop 8 endpoint
                      else if startswith endpoint ''http://'' then drop 7 endpoint
                      else endpoint)
      in [''[default]'',
          ''host_base = '' @ endpoint,
          ''host_bucket = '' @ endpoint,
          ''access_key = '' @ environment_get table ''S3_ACCESSKEY'' [],
          ''secret_key = '' @ environment_get table ''S3_SECRETKEY'' ''ignored'',
          ''use_https = true'',
          ''signature_v2 = false'',
          ''enable_multipart = false''])"

definition write_s3_config :: "world \<Rightarrow> state \<Rightarrow> state" where
  "write_s3_config w st =
     write_file (home_directory w @ ''/.s3cfg'')
       (join_nl (s3_config_lines (environment st))) None st"

text \<open>
  \<^verbatim>\<open>write_ssh_key\<close>: one file for each entry of the \<^verbatim>\<open>ssh\<close> section, with mode
  \<^verbatim>\<open>0o600\<close>. An absent \<^verbatim>\<open>key\<close> or \<^verbatim>\<open>filename\<close> is \<^verbatim>\<open>None\<close>, which \<^verbatim>\<open>format\<close> prints
  as the word.
\<close>

definition format_optional :: "string option \<Rightarrow> string" where
  "format_optional v = get_or v ''None''"

definition write_ssh_key :: "world \<Rightarrow> state \<Rightarrow> state" where
  "write_ssh_key w st =
     (let ssh_keys = get_or (general_ssh (general_of (read_config w))) [] in
      fold (\<lambda>k st'.
              let entry = get_or (map_of ssh_keys k) \<lparr>ssh_key = None, ssh_filename = None\<rparr>
              in write_file
                   (home_directory w @ ''/.ssh/'' @ format_optional (ssh_filename entry))
                   (format_optional (ssh_key entry) @ [CHR 0x0A]) (Some 384) st')
           (map fst ssh_keys) st)"


section \<open>write_transfer_script\<close>

definition identifier_filename :: string where
  "identifier_filename = ''identifier.parquet''"

definition final_documents :: "string list" where
  "final_documents = [''person.json'', ''organization.json'', ''index.json'', ''event.json'']"

text \<open>The lines for the index file, added when the intermediate path is remote.\<close>

definition index_download :: "string \<Rightarrow> string \<Rightarrow> string list" where
  \<open>index_download temporary_path intermediate_path =
     [''[ -d "'' @ temporary_path @ ''parquet/" ] && cd '' @ temporary_path @ ''parquet/ && pwd'',
      ''s3cmd get --force '' @ intermediate_path @ identifier_filename @ ''.tgz '' @
        identifier_filename @ ''.tgz'',
      ''[ -s "'' @ identifier_filename @ ''.tgz" ] && tar -xzf '' @ identifier_filename @ ''.tgz'',
      ''[ -s "'' @ identifier_filename @ ''.tgz" ] && rm '' @ identifier_filename @ ''.tgz'']\<close>

definition index_upload :: "string \<Rightarrow> string \<Rightarrow> string list" where
  \<open>index_upload temporary_path intermediate_path =
     [''[ -d "'' @ temporary_path @ ''parquet" ] && cd '' @ temporary_path @ ''parquet'',
      ''[ -d "'' @ identifier_filename @ ''" ] && tar -czf '' @ identifier_filename @ ''.tgz '' @
        identifier_filename,
      ''[ -s "'' @ identifier_filename @ ''.tgz" ] && s3cmd put '' @ identifier_filename @
        ''.tgz '' @ intermediate_path @ identifier_filename @ ''.tgz'']\<close>

text \<open>The lines for the source files, added when the source path is remote.\<close>

definition raw_directory_line :: "string \<Rightarrow> string" where
  \<open>raw_directory_line temporary_path =
     ''[ -d "'' @ temporary_path @ ''raw" ] && cd '' @ temporary_path @ ''raw && pwd''\<close>

definition fetch_line :: "string \<Rightarrow> string \<Rightarrow> string" where
  "fetch_line source_path name = ''s3cmd get --force '' @ source_path @ name @ '' '' @ name"

text \<open>\<^verbatim>\<open>d.get("sourceFiles", [])\<close>.\<close>

definition source_files :: "file_dict \<Rightarrow> string list" where
  "source_files d = get_or (map_of d ''sourceFiles'') []"

text \<open>
  One element of \<^verbatim>\<open>download_lines\<close>: the fetch commands of a file list, joined by
  newlines (the empty string for an empty list).
\<close>

definition fetch_group :: "string \<Rightarrow> string list \<Rightarrow> string" where
  "fetch_group source_path names = join_nl (map (fetch_line source_path) names)"

text \<open>
  The body of the loop over the catalog, for one entity name and what
  \<^verbatim>\<open>entities.get(entity, {})\<close> finds. The shape is chosen by the name: calling
  \<^verbatim>\<open>get\<close> on a list, or on the keys of a dictionary, raises \<^verbatim>\<open>AttributeError\<close>.
\<close>

definition entity_download :: "string \<Rightarrow> string \<Rightarrow> entity option \<Rightarrow> error + string list" where
  "entity_download source_path name found =
     (if name \<noteq> ''kpis'' then
        (case found of
           None \<Rightarrow> Inr [fetch_group source_path []]
         | Some (FlatEntity d) \<Rightarrow> Inr [fetch_group source_path (source_files d)]
         | Some (GroupedEntity ks) \<Rightarrow> Inl AttributeError)
      else
        (case found of
           None \<Rightarrow> Inr []
         | Some (GroupedEntity ks) \<Rightarrow>
             Inr (map (\<lambda>kpi. fetch_group source_path (source_files kpi)) ks)
         | Some (FlatEntity d) \<Rightarrow> if d = [] then Inr [] else Inl AttributeError))"

fun source_loop ::
  "string \<Rightarrow> (string \<times> entity) list \<Rightarrow> string list \<Rightarrow> string list \<Rightarrow> error + string list" where
  "source_loop source_path entities [] download_lines = Inr download_lines"
| "source_loop source_path entities (name # rest) download_lines =
     and_then (entity_download source_path name (map_of entities name))
       (\<lambda>added. source_loop source_path entities rest (download_lines @ added))"

text \<open>The lines for the final documents, added when the target path is remote.\<close>

definition json_directory_line :: "string \<Rightarrow> string" where
  \<open>json_directory_line temporary_path =
     ''cd '' @ temporary_path @ ''json || (echo "Cannot find '' @ temporary_path @
       '' for uploading final documents."; exit 1)''\<close>

definition document_upload :: "string \<Rightarrow> string \<Rightarrow> string list" where
  \<open>document_upload target_path document =
     [''[ -d "'' @ document @ ''" ] && tar -czf '' @ document @ ''.tgz '' @ document,
      ''[ -s "'' @ document @ ''.tgz" ] && s3cmd put '' @ document @ ''.tgz '' @ target_path @
        document @ ''.tgz'']\<close>

definition target_upload :: "string \<Rightarrow> string \<Rightarrow> string list" where
  "target_upload temporary_path target_path =
     json_directory_line temporary_path #
       concat (map (document_upload target_path) final_documents)"

text \<open>
  The two line lists of \<^verbatim>\<open>write_transfer_script\<close>, from the \<^verbatim>\<open>environment\<close> table
  and the catalog: \<open>(download_lines, upload_lines)\<close>, or the exception of the loop over
  the catalog.
\<close>

definition transfer_lines ::
  "(string \<times> string) list \<Rightarrow> (string \<times> entity) list \<Rightarrow> error + string list \<times> string list" where
  "transfer_lines table entities =
     (let temporary_path = normalize_path (environment_get table ''C360_TEMP_PATH'' ''/nfsmount/'');
          source_path = normalize_path (environment_get table ''C360_SOURCE_PATH'' ''/nfsmount/'');
          intermediate_path =
            normalize_path (environment_get table ''C360_INTERMEDIATE_PATH'' ''/nfsmount/'');
          target_path = normalize_path (environment_get table ''C360_TARGET_PATH'' ''/nfsmount/'');
          download_lines =
            [''#!/bin/bash'',
             ''mkdir -p '' @ temporary_path @ ''raw '' @ temporary_path @ ''parquet '' @
               temporary_path @ ''json''];
          upload_lines = [''#!/bin/bash''];
          download_lines =
            (if startswith intermediate_path ''s3''
             then download_lines @ index_download temporary_path intermediate_path
             else download_lines);
          upload_lines =
            (if startswith intermediate_path ''s3''
             then upload_lines @ index_upload temporary_path intermediate_path
             else upload_lines);
          upload_lines =
            (if startswith target_path ''s3''
             then upload_lines @ target_upload temporary_path target_path
             else upload_lines)
      in and_then
           (if startswith source_path ''s3''
            then source_loop source_path entities (map fst entities)
                   (download_lines @ [raw_directory_line temporary_path])
            else Inr download_lines)
           (\<lambda>download_lines. Inr (download_lines, upload_lines)))"

text \<open>Both scripts are written with mode \<^verbatim>\<open>0700\<close> (448).\<close>

definition write_transfer_script :: "world \<Rightarrow> state \<Rightarrow> outcome" where
  "write_transfer_script w st =
     (case transfer_lines (environment st)
             (get_or (processing_entities (processing_of (read_config w))) []) of
        Inl e \<Rightarrow> Inl (e, st)
      | Inr (download_lines, upload_lines) \<Rightarrow>
          Inr (write_file (home_directory w @ ''/upload_files.sh'') (join_nl upload_lines)
                 (Some 448)
              (write_file (home_directory w @ ''/download_files.sh'') (join_nl download_lines)
                 (Some 448) st)))"


text \<open>
  Notions for the properties of the scripts: the four normalized paths of a table and
  the two lines that open every download script; a string without a newline; the four
  path values that \<^verbatim>\<open>write_transfer_script\<close> reads from the table; the leaf files of a
  catalog, in the order of the catalog; a catalog in which the entity named
  \<^verbatim>\<open>kpis\<close>, and no other, is a list of sub-entities; and the forms of the lines.
\<close>

definition temporary_path_of :: "(string \<times> string) list \<Rightarrow> string" where
  "temporary_path_of table =
     normalize_path (environment_get table ''C360_TEMP_PATH'' ''/nfsmount/'')"

definition source_path_of :: "(string \<times> string) list \<Rightarrow> string" where
  "source_path_of table =
     normalize_path (environment_get table ''C360_SOURCE_PATH'' ''/nfsmount/'')"

definition intermediate_path_of :: "(string \<times> string) list \<Rightarrow> string" where
  "intermediate_path_of table =
     normalize_path (environment_get table ''C360_INTERMEDIATE_PATH'' ''/nfsmount/'')"

definition target_path_of :: "(string \<times> string) list \<Rightarrow> string" where
  "target_path_of table =
     normalize_path (environment_get table ''C360_TARGET_PATH'' ''/nfsmount/'')"

definition download_header :: "string \<Rightarrow> string list" where
  "download_header temporary_path =
     [''#!/bin/bash'',
      ''mkdir -p '' @ temporary_path @ ''raw '' @ temporary_path @ ''parquet '' @
        temporary_path @ ''json'']"

definition no_newline :: "string \<Rightarrow> bool" where
  "no_newline s = (CHR 0x0A \<notin> set s)"

definition path_values :: "(string \<times> string) list \<Rightarrow> string list" where
  "path_values table =
     [environment_get table ''C360_TEMP_PATH'' ''/nfsmount/'',
      environment_get table ''C360_SOURCE_PATH'' ''/nfsmount/'',
      environment_get table ''C360_INTERMEDIATE_PATH'' ''/nfsmount/'',
      environment_get table ''C360_TARGET_PATH'' ''/nfsmount/'']"

fun entity_files :: "entity \<Rightarrow> string list" where
  "entity_files (FlatEntity d) = source_files d"
| "entity_files (GroupedEntity ks) = concat (map source_files ks)"

definition leaf_files :: "(string \<times> entity) list \<Rightarrow> string list" where
  "leaf_files entities = concat (map (\<lambda>(name, e). entity_files e) entities)"

fun well_shaped_entity :: "string \<times> entity \<Rightarrow> bool" where
  "well_shaped_entity (name, FlatEntity d) = (name \<noteq> ''kpis'')"
| "well_shaped_entity (name, GroupedEntity ks) = (name = ''kpis'')"

definition well_shaped :: "(string \<times> entity) list \<Rightarrow> bool" where
  "well_shaped entities = (distinct (map fst entities) \<and> list_all well_shaped_entity entities)"

definition existence_guarded :: "string \<Rightarrow> bool" where
  "existence_guarded l = (startswith l ''[ -d '' \<or> startswith l ''[ -s '')"

text \<open>
  The commands that are written without a guard: the \<^verbatim>\<open>mkdir\<close> command that is the
  second element of \<^verbatim>\<open>download_lines\<close>, the fetch of the index archive, a
  \<open>fetch_line\<close> of a file, and the \<^verbatim>\<open>cd\<close> command of \<open>json_directory_line\<close>.
\<close>

definition mkdir_line :: "string \<Rightarrow> string" where
  "mkdir_line temporary_path =
     ''mkdir -p '' @ temporary_path @ ''raw '' @ temporary_path @ ''parquet '' @
       temporary_path @ ''json''"

definition index_fetch_line :: "string \<Rightarrow> string" where
  "index_fetch_line intermediate_path =
     ''s3cmd get --force '' @ intermediate_path @
       ''identifier.parquet.tgz identifier.parquet.tgz''"

text \<open>
  A line of the download script after its first two lines is in order when it begins
  with a guard, or is the fetch of the index archive (remote intermediate path), or is
  empty or the fetch of one of the given files (remote source path). A line of the
  upload script after its first line is in order when it begins with a guard or is the
  \<^verbatim>\<open>cd\<close> command (remote target path).
\<close>

definition download_line_ok :: "string \<Rightarrow> string \<Rightarrow> string list \<Rightarrow> string \<Rightarrow> bool" where
  "download_line_ok intermediate_path source_path names l =
     (existence_guarded l \<or>
      (startswith intermediate_path ''s3'' \<and> l = index_fetch_line intermediate_path) \<or>
      (startswith source_path ''s3'' \<and>
         (l = [] \<or> l \<in> set (map (fetch_line source_path) names))))"

definition upload_line_ok :: "string \<Rightarrow> string \<Rightarrow> string \<Rightarrow> bool" where
  "upload_line_ok temporary_path target_path l =
     (existence_guarded l \<or>
      (startswith target_path ''s3'' \<and> l = json_directory_line temporary_path))"

text \<open>
  The elements that the loop over the catalog adds to \<^verbatim>\<open>download_lines\<close> for an
  entity of the shape its name announces: one group of fetch commands for a flat
  entity, one group for each sub-entity of the grouped one.
\<close>

fun entity_groups :: "string \<Rightarrow> entity \<Rightarrow> string list" where
  "entity_groups source_path (FlatEntity d) = [fetch_group source_path (source_files d)]"
| "entity_groups source_path (GroupedEntity ks) =
     map (\<lambda>kpi. fetch_group source_path (source_files kpi)) ks"

text \<open>The lines of a script: the text that is written, split at the newlines.\<close>

definition script_lines :: "string list \<Rightarrow> string list" where
  "script_lines lines_written = split_nl (join_nl lines_written)"

text \<open>
  The catalog that \<^verbatim>\<open>write_transfer_script\<close> reads, the names of the two files it
  writes, and the lines of the text last written under a name by a call that returned
  (no line at all when the call raised or the file was not written).
\<close>

definition catalog_of :: "world \<Rightarrow> (string \<times> entity) list" where
  "catalog_of w = get_or (processing_entities (processing_of (read_config w))) []"

definition download_file_name :: "world \<Rightarrow> string" where
  "download_file_name w = home_directory w @ ''/download_files.sh''"

definition upload_file_name :: "world \<Rightarrow> string" where
  "upload_file_name w = home_directory w @ ''/upload_files.sh''"

definition written_lines :: "string \<Rightarrow> outcome \<Rightarrow> string list" where
  "written_lines name r =
     (case r of
        Inl x \<Rightarrow> []
      | Inr st \<Rightarrow>
          (let written = filter (\<lambda>f. file_name f = name) (files st)
           in if written = [] then [] else split_nl (file_content (last written))))"


section \<open>set_config and main\<close>

definition set_config :: "world \<Rightarrow> state \<Rightarrow> outcome" where
  "set_config w st =
     then_run (assemble_environment w st) (\<lambda>st1.
     then_run (write_transfer_script w (write_s3_config w (write_config w st1))) (\<lambda>st2.
     Inr (write_ssh_key w st2)))"

definition main :: "world \<Rightarrow> outcome" where
  "main w = then_run (init w) (set_config w)"


section \<open>Example inputs\<close>

text \<open>A process environment in which every prerequisite has a value.\<close>

definition ex_env :: "string \<rightharpoonup> string" where
  "ex_env = map_of [(''CB_HOST'', ''db''), (''CB_USER'', ''u''), (''CB_PASSWORD'', ''p w''),
     (''CB_BUCKET'', ''b''), (''C360_ENVIRONMENT'', ''dev''), (''PROCESS_DATE'', ''2020-01-01''),
     (''ENCRYPTION_KEY'', ''k'')]"


text \<open>
  A configuration document with remote source, intermediate and target paths and a
  catalog of two flat entities and the grouped entity \<^verbatim>\<open>kpis\<close>.
\<close>

definition ex_entities :: "(string \<times> entity) list" where
  "ex_entities =
     [(''person'', FlatEntity [(''sourceFiles'', [''a.csv'', ''b.csv''])]),
      (''kpis'', GroupedEntity [[(''sourceFiles'', [''k1.csv''])], []]),
      (''org'', FlatEntity [])]"

definition ex_config :: config where
  "ex_config =
     \<lparr>cfg_general = None,
      cfg_processing = Some
        \<lparr>processing_entities = Some ex_entities,
         processing_paths = Some
           \<lparr>paths_source = Some ''s3a://bucket/src'',
            paths_intermediate = Some ''s3n://bucket/int/'',
            paths_final = Some ''s3://bucket/out''\<rparr>,
         processing_internal = Some \<lparr>internal_temporary = Some ''/nfs/tmp''\<rparr>\<rparr>\<rparr>"

definition ex_world :: world where
  "ex_world =
     \<lparr>environ = ex_env,
      module_path = ''/opt/c360'',
      home_directory = ''/home/u'',
      bashrc = ''export SPARK_MASTER=spark://m:7077\<newline>'',
      read_config = ex_config,
      get_local_path = (\<lambda>section_read name. ''/local/'' @ name),
      strappend_of_dict = Inl (ExternalError ''strappend'')\<rparr>"


text \<open>
  Three variants of the host startup file: host and port without a master; a master
  that refers to the host and the port; and a master without placeholders.
\<close>

definition ex_bashrc_host_port :: string where
  "ex_bashrc_host_port =
     ''export SPARK_MASTER_HOST=h\<newline>export SPARK_MASTER_PORT=7077\<newline>''"

definition ex_bashrc_placeholders :: string where
  "ex_bashrc_placeholders =
     ''export SPARK_MASTER_HOST=h\<newline>export SPARK_MASTER_PORT=7077\<newline>'' @
     ''export SPARK_MASTER=yarn://$SPARK_MASTER_HOST:$SPARK_MASTER_PORT/x\<newline>''"

text \<open>The entry of the table under a key, for a run that returned.\<close>

definition entry_of :: "outcome \<Rightarrow> string \<Rightarrow> string option" where
  "entry_of r k = (case r of Inl x \<Rightarrow> None | Inr st \<Rightarrow> map_of (environment st) k)"


text \<open>A table with a local temporary path and remote source, intermediate and target paths.\<close>

definition ex_table :: "(string \<times> string) list" where
  "ex_table =
     [(''C360_SOURCE_PATH'', ''s3a://bucket/src/''),
      (''C360_INTERMEDIATE_PATH'', ''s3n://bucket/int/''),
      (''C360_TARGET_PATH'', ''s3://bucket/out/''),
      (''C360_TEMP_PATH'', ''/nfs/tmp/'')]"

text \<open>A table in which every path is local.\<close>

definition ex_local_table :: "(string \<times> string) list" where
  "ex_local_table =
     [(''C360_SOURCE_PATH'', ''/data/src/''),
      (''C360_INTERMEDIATE_PATH'', ''/data/int/''),
      (''C360_TARGET_PATH'', ''/data/out/''),
      (''C360_TEMP_PATH'', ''/nfs/tmp/'')]"


text \<open>
  A state that holds a given table and nothing else; the example world with another
  catalog; and three more tables: a source directory and an intermediate directory
  whose names start with \<^verbatim>\<open>s3\<close>, and a temporary path in the object store.
\<close>

definition ex_state :: "(string \<times> string) list \<Rightarrow> state" where
  "ex_state table = \<lparr>environment = table, logs = [], files = []\<rparr>"

definition ex_catalog_world :: "(string \<times> entity) list \<Rightarrow> world" where
  "ex_catalog_world entities =
     ex_world\<lparr>read_config :=
       \<lparr>cfg_general = None,
        cfg_processing = Some
          \<lparr>processing_entities = Some entities, processing_paths = None,
           processing_internal = None\<rparr>\<rparr>\<rparr>"

definition ex_source_directory_table :: "(string \<times> string) list" where
  "ex_source_directory_table = [(''C360_SOURCE_PATH'', ''s3data/'')]"



definition ex_remote_source_table :: "(string \<times> string) list" where
  "ex_remote_source_table = [(''C360_SOURCE_PATH'', ''s3://bucket/src/'')]"

definition ex_newline_temporary_table :: "(string \<times> string) list" where
  "ex_newline_temporary_table = [(''C360_TEMP_PATH'', ''a\<newline>b/'')]"

text \<open>A catalog of one flat entity with one file, whose name holds a newline.\<close>

definition ex_newline_entities :: "(string \<times> entity) list" where
  "ex_newline_entities =
     [(''person'', FlatEntity [(''sourceFiles'', [''a\<newline>s3cmd get --force b''])])]"


section \<open>The prerequisite check\<close>

lemma distinct_prerequisites: "distinct prerequisite_environment_variables"
  by (simp add: prerequisite_environment_variables_def)

lemma check_loop_result:
  "check_loop env vs (n, st) =
     (n + length (filter (is_missing env) vs),
      st\<lparr>environment :=
            fold (\<lambda>v. AList.update v (environ_get env v []))
              (filter (\<lambda>v. \<not> is_missing env v) vs) (environment st),
          logs := logs st @ map missing_message (filter (is_missing env) vs)\<rparr>)"
  by (induction vs arbitrary: n st) (simp_all add: set_env_def)

lemma map_of_fold_update:
  "map_of (fold (\<lambda>v. AList.update v (f v)) vs al) k =
     (if k \<in> set vs then Some (f k) else map_of al k)"
  by (induction vs arbitrary: al) (simp_all add: update_conv')

lemma count_list_map_inj:
  "inj f \<Longrightarrow> count_list (map f xs) (f x) = count_list xs x"
  by (induction xs) (auto dest: injD)

lemma count_list_filter_distinct:
  "distinct xs \<Longrightarrow> count_list (filter P xs) x = (if x \<in> set xs \<and> P x then 1 else 0)"
  by (induction xs) auto

lemma inj_missing_message: "inj missing_message"
  by (simp add: inj_def missing_message_def)

lemma check_prerequisites_count:
  "fst (check_prerequisites env st) =
     card {v \<in> set prerequisite_environment_variables. is_missing env v}"
proof -
  have "card (set (filter (is_missing env) prerequisite_environment_variables)) =
        length (filter (is_missing env) prerequisite_environment_variables)"
    by (rule distinct_card) (simp add: distinct_prerequisites)
  then show ?thesis
    by (simp add: check_prerequisites_def check_loop_result)
qed

lemma check_prerequisites_logs:
  "logs (snd (check_prerequisites env st)) =
     logs st @ map missing_message (filter (is_missing env) prerequisite_environment_variables)"
  by (simp add: check_prerequisites_def check_loop_result)

lemma check_prerequisites_files:
  "files (snd (check_prerequisites env st)) = files st"
  by (simp add: check_prerequisites_def check_loop_result)

lemma check_prerequisites_environment:
  "map_of (environment (snd (check_prerequisites env st))) v =
     (if v \<in> set prerequisite_environment_variables \<and> \<not> is_missing env v
      then env v else map_of (environment st) v)"
  by (auto simp: check_prerequisites_def check_loop_result map_of_fold_update
      is_missing_def environ_get_def split: option.splits)

lemma check_prerequisites_cong:
  assumes "\<And>v. v \<in> set prerequisite_environment_variables \<Longrightarrow> is_missing env v = is_missing env' v"
    and "\<And>v. v \<in> set prerequisite_environment_variables \<Longrightarrow> \<not> is_missing env v \<Longrightarrow> env v = env' v"
  shows "check_prerequisites env st = check_prerequisites env' st"
proof -
  have "check_loop env vs acc = check_loop env' vs acc"
    if "set vs \<subseteq> set prerequisite_environment_variables" for vs acc
    using that
  proof (induction vs arbitrary: acc)
    case Nil
    then show ?case by simp
  next
    case (Cons v vs)
    obtain n s where acc: "acc = (n, s)" by (cases acc)
    from Cons.prems have v: "v \<in> set prerequisite_environment_variables" by simp
    show ?case
      using Cons.IH Cons.prems assms(1)[OF v] assms(2)[OF v]
      by (simp add: acc environ_get_def)
  qed
  then show ?thesis by (simp add: check_prerequisites_def)
qed


lemma init_exit:
  "init w = (if \<exists>v \<in> set prerequisite_environment_variables. is_missing (environ w) v
             then Inl (SystemExit 1, snd (check_prerequisites (environ w) (initial_state w)))
             else Inr (snd (check_prerequisites (environ w) (initial_state w))))"
  unfolding init_def Let_def
  by (simp add: check_prerequisites_def check_loop_result filter_empty_conv del: set_filter)

lemma files_initial_state: "files (initial_state w) = []"
  by (simp add: initial_state_def set_env_def Let_def)

lemma logs_initial_state: "logs (initial_state w) = []"
  by (simp add: initial_state_def set_env_def Let_def)

text \<open>
  Claim C6 (as amended). A prerequisite variable is missing when it is unset or when its
  value is the empty string. The count that \<^verbatim>\<open>check_prerequisites\<close> returns is the
  number of missing variables of the mandatory set; the log grows by one line for each
  missing name, each name once; every variable with a non-empty value is copied into
  the table; and when the count is not zero, the run ends with \<^verbatim>\<open>SystemExit(1)\<close>
  and no file has been written.
\<close>

theorem prerequisites_missing_count:
  "fst (check_prerequisites env st) =
     card {v \<in> set prerequisite_environment_variables. is_missing env v}
   \<and> logs (snd (check_prerequisites env st)) =
       logs st @ map missing_message (filter (is_missing env) prerequisite_environment_variables)
   \<and> (\<forall>v \<in> set prerequisite_environment_variables.
         count_list (map missing_message
                      (filter (is_missing env) prerequisite_environment_variables))
           (missing_message v) = (if is_missing env v then 1 else 0))
   \<and> (\<forall>v \<in> set prerequisite_environment_variables.
         \<not> is_missing env v \<longrightarrow>
         map_of (environment (snd (check_prerequisites env st))) v = env v)
   \<and> (0 < fst (check_prerequisites (environ w) (initial_state w)) \<longrightarrow>
        (\<exists>st'. main w = Inl (SystemExit 1, st') \<and> files st' = []))"
proof (intro conjI)
  show "fst (check_prerequisites env st) =
     card {v \<in> set prerequisite_environment_variables. is_missing env v}"
    by (rule check_prerequisites_count)
  show "logs (snd (check_prerequisites env st)) =
       logs st @ map missing_message (filter (is_missing env) prerequisite_environment_variables)"
    by (rule check_prerequisites_logs)
  show "\<forall>v \<in> set prerequisite_environment_variables.
         count_list (map missing_message
                      (filter (is_missing env) prerequisite_environment_variables))
           (missing_message v) = (if is_missing env v then 1 else 0)"
    by (simp add: count_list_map_inj [OF inj_missing_message]
        count_list_filter_distinct [OF distinct_prerequisites])
  show "\<forall>v \<in> set prerequisite_environment_variables.
         \<not> is_missing env v \<longrightarrow>
         map_of (environment (snd (check_prerequisites env st))) v = env v"
    by (simp add: check_prerequisites_environment)
  show "0 < fst (check_prerequisites (environ w) (initial_state w)) \<longrightarrow>
        (\<exists>st'. main w = Inl (SystemExit 1, st') \<and> files st' = [])"
    by (simp add: main_def init_def Let_def then_run_def check_prerequisites_files
        files_initial_state)
qed

theorem prerequisites_missing_count_witness:
  "fst (check_prerequisites (ex_env(''CB_HOST'' := None, ''PROCESS_DATE'' \<mapsto> []))
          \<lparr>environment = [], logs = [], files = []\<rparr>) = 2
   \<and> card {v \<in> set prerequisite_environment_variables.
             is_missing (ex_env(''CB_HOST'' := None, ''PROCESS_DATE'' \<mapsto> [])) v} = 2
   \<and> map_of (environment (snd (check_prerequisites
          (ex_env(''CB_HOST'' := None, ''PROCESS_DATE'' \<mapsto> []))
          \<lparr>environment = [], logs = [], files = []\<rparr>))) ''CB_USER'' = Some ''u''
   \<and> (\<exists>st'. main (ex_world\<lparr>environ := ex_env(''CB_HOST'' := None, ''PROCESS_DATE'' \<mapsto> [])\<rparr>)
               = Inl (SystemExit 1, st') \<and> files st' = [])"
proof -
  define e where "e = ex_env(''CB_HOST'' := None, ''PROCESS_DATE'' \<mapsto> [])"
  define st where "st = \<lparr>environment = [], logs = ([]::log_entry list), files = []\<rparr>"
  define w where "w = ex_world\<lparr>environ := e\<rparr>"
  note t = prerequisites_missing_count [of e st w]
  have n: "fst (check_prerequisites e st) = 2"
    by (simp add: e_def st_def ex_env_def check_prerequisites_def
        prerequisite_environment_variables_def is_missing_def set_env_def environ_get_def)
  have u: "''CB_USER'' \<in> set prerequisite_environment_variables"
    by (simp add: prerequisite_environment_variables_def)
  have p: "\<not> is_missing e ''CB_USER''"
    by (simp add: e_def ex_env_def is_missing_def)
  have h: "0 < fst (check_prerequisites (environ w) (initial_state w))"
    by (simp add: w_def e_def ex_env_def check_prerequisites_def
        prerequisite_environment_variables_def is_missing_def set_env_def environ_get_def)
  from t n have a: "card {v \<in> set prerequisite_environment_variables. is_missing e v} = 2"
    by simp
  from t u p have b: "map_of (environment (snd (check_prerequisites e st))) ''CB_USER'' = e ''CB_USER''"
    by blast
  from t h have c: "\<exists>st'. main w = Inl (SystemExit 1, st') \<and> files st' = []"
    by blast
  have d: "e ''CB_USER'' = Some ''u''"
    by (simp add: e_def ex_env_def)
  from n a b c d show ?thesis
    unfolding e_def st_def w_def by simp
qed

text \<open>
  The count is not the number of unset variables: with every prerequisite set and
  \<^verbatim>\<open>CB_HOST\<close> set to the empty string, no variable is unset, the count is 1, and
  \<^verbatim>\<open>CB_HOST\<close>, although present, is not copied.
\<close>

theorem unset_count_counterexample:
  "{v \<in> set prerequisite_environment_variables. (ex_env(''CB_HOST'' \<mapsto> [])) v = None} = {}
   \<and> fst (check_prerequisites (ex_env(''CB_HOST'' \<mapsto> []))
            \<lparr>environment = [], logs = [], files = []\<rparr>) = 1
   \<and> map_of (environment (snd (check_prerequisites (ex_env(''CB_HOST'' \<mapsto> []))
            \<lparr>environment = [], logs = [], files = []\<rparr>))) ''CB_HOST'' = None"
  by (simp add: prerequisite_environment_variables_def ex_env_def check_prerequisites_def
      is_missing_def set_env_def environ_get_def)


text \<open>
  Claim C10. A prerequisite variable that is present with the empty string as its value
  is treated as a missing one: the check gives the result it gives when the variable
  is unset, the variable is counted, its name is logged once, and the table keeps
  whatever it held for that name.
\<close>

theorem empty_prerequisite_is_missing:
  assumes "v \<in> set prerequisite_environment_variables" and "env v = Some []"
  shows "check_prerequisites env st = check_prerequisites (env(v := None)) st
     \<and> fst (check_prerequisites env st) =
         Suc (card {u \<in> set prerequisite_environment_variables. u \<noteq> v \<and> is_missing env u})
     \<and> count_list (logs (snd (check_prerequisites env st))) (missing_message v) =
         Suc (count_list (logs st) (missing_message v))
     \<and> map_of (environment (snd (check_prerequisites env st))) v = map_of (environment st) v"
proof (intro conjI)
  have m: "is_missing env v"
    using assms(2) by (simp add: is_missing_def)
  show "check_prerequisites env st = check_prerequisites (env(v := None)) st"
    by (rule check_prerequisites_cong) (use assms(2) in \<open>auto simp: is_missing_def\<close>)
  have "{u \<in> set prerequisite_environment_variables. is_missing env u} =
        insert v {u \<in> set prerequisite_environment_variables. u \<noteq> v \<and> is_missing env u}"
    using assms(1) m by auto
  then have "card {u \<in> set prerequisite_environment_variables. is_missing env u} =
        Suc (card {u \<in> set prerequisite_environment_variables. u \<noteq> v \<and> is_missing env u})"
    by simp
  then show "fst (check_prerequisites env st) =
         Suc (card {u \<in> set prerequisite_environment_variables. u \<noteq> v \<and> is_missing env u})"
    by (simp add: check_prerequisites_count)
  show "count_list (logs (snd (check_prerequisites env st))) (missing_message v) =
         Suc (count_list (logs st) (missing_message v))"
    using assms(1) m
    by (simp add: check_prerequisites_logs count_list_map_inj [OF inj_missing_message]
        count_list_filter_distinct [OF distinct_prerequisites])
  show "map_of (environment (snd (check_prerequisites env st))) v = map_of (environment st) v"
    using m by (simp add: check_prerequisites_environment)
qed

theorem empty_prerequisite_is_missing_witness:
  "check_prerequisites (ex_env(''CB_BUCKET'' \<mapsto> [])) (initial_state ex_world) =
     check_prerequisites (ex_env(''CB_BUCKET'' := None)) (initial_state ex_world)
   \<and> fst (check_prerequisites (ex_env(''CB_BUCKET'' \<mapsto> [])) (initial_state ex_world)) = 1
   \<and> count_list (logs (snd (check_prerequisites (ex_env(''CB_BUCKET'' \<mapsto> []))
        (initial_state ex_world)))) (missing_message ''CB_BUCKET'') = 1
   \<and> map_of (environment (snd (check_prerequisites (ex_env(''CB_BUCKET'' \<mapsto> []))
        (initial_state ex_world)))) ''CB_BUCKET'' = None"
proof -
  define e where "e = ex_env(''CB_BUCKET'' \<mapsto> [])"
  have v: "''CB_BUCKET'' \<in> set prerequisite_environment_variables"
    by (simp add: prerequisite_environment_variables_def)
  have s: "e ''CB_BUCKET'' = Some []"
    by (simp add: e_def)
  note t = empty_prerequisite_is_missing [of "''CB_BUCKET''" e "initial_state ex_world", OF v s]
  have o: "{u \<in> set prerequisite_environment_variables. u \<noteq> ''CB_BUCKET'' \<and> is_missing e u} = {}"
    by (auto simp: prerequisite_environment_variables_def e_def ex_env_def is_missing_def)
  have i: "map_of (environment (initial_state ex_world)) ''CB_BUCKET'' = None"
    by (simp add: initial_state_def Let_def set_env_def)
  have e': "e(''CB_BUCKET'' := None) = ex_env(''CB_BUCKET'' := None)"
    by (simp add: e_def)
  from t have t1: "check_prerequisites e (initial_state ex_world) =
      check_prerequisites (e(''CB_BUCKET'' := None)) (initial_state ex_world)"
    by blast
  from t have "fst (check_prerequisites e (initial_state ex_world)) =
      Suc (card {u \<in> set prerequisite_environment_variables.
                  u \<noteq> ''CB_BUCKET'' \<and> is_missing e u})"
    by blast
  with o have t2: "fst (check_prerequisites e (initial_state ex_world)) = 1"
    by simp
  from t have "count_list (logs (snd (check_prerequisites e (initial_state ex_world))))
      (missing_message ''CB_BUCKET'') =
      Suc (count_list (logs (initial_state ex_world)) (missing_message ''CB_BUCKET''))"
    by blast
  then have t3: "count_list (logs (snd (check_prerequisites e (initial_state ex_world))))
      (missing_message ''CB_BUCKET'') = 1"
    by (simp add: logs_initial_state)
  from t have "map_of (environment (snd (check_prerequisites e (initial_state ex_world))))
      ''CB_BUCKET'' = map_of (environment (initial_state ex_world)) ''CB_BUCKET''"
    by blast
  with i have t4: "map_of (environment (snd (check_prerequisites e (initial_state ex_world))))
      ''CB_BUCKET'' = None"
    by simp
  show ?thesis
    unfolding e_def [symmetric] using t1 t2 t3 t4 by (simp only: e' simp_thms)
qed


section \<open>Path normalization\<close>

lemma str_replace_Nil: "old \<noteq> [] \<Longrightarrow> str_replace old new [] = []"
  by (simp add: str_replace.simps)

lemma str_replace_Cons:
  "old \<noteq> [] \<Longrightarrow> str_replace old new (c # cs) =
     (if startswith (c # cs) old then new @ str_replace old new (drop (length old) (c # cs))
      else c # str_replace old new cs)"
  by (subst str_replace.simps) simp

lemma normalize_s3a: "normalize_path (''s3a:'' @ rest) = ''s3:'' @ normalize_path rest"
  by (simp add: normalize_path_def str_replace_Cons startswith_def)

lemma normalize_s3n: "normalize_path (''s3n:'' @ rest) = ''s3:'' @ normalize_path rest"
  by (simp add: normalize_path_def str_replace_Cons startswith_def)

lemma normalize_examples:
  "normalize_path ''s3a://bucket/x'' = ''s3://bucket/x''"
  "normalize_path ''s3n://bucket/x'' = ''s3://bucket/x''"
  by (simp_all add: normalize_path_def str_replace_Cons str_replace_Nil startswith_def)

lemma endswith_append_self: "endswith (p @ s) s"
  by (simp add: endswith_def)

lemma strappend_idem: "strappend (strappend p s) s = strappend p s"
  by (simp add: strappend_def endswith_append_self)

text \<open>
  Claim C7. The scheme unification turns \<^verbatim>\<open>s3a://bucket/x\<close> and \<^verbatim>\<open>s3n://bucket/x\<close>
  into \<^verbatim>\<open>s3://bucket/x\<close>, and more generally rewrites a leading \<^verbatim>\<open>s3a:\<close> or
  \<^verbatim>\<open>s3n:\<close> to \<^verbatim>\<open>s3:\<close>. Appending the separator leaves a path that ends in \<^verbatim>\<open>/\<close>
  unchanged, adds exactly one \<^verbatim>\<open>/\<close> to a path that does not, and is idempotent.
\<close>

theorem path_normalization:
  "normalize_path ''s3a://bucket/x'' = ''s3://bucket/x''
   \<and> normalize_path ''s3n://bucket/x'' = ''s3://bucket/x''
   \<and> normalize_path (''s3a:'' @ rest) = ''s3:'' @ normalize_path rest
   \<and> normalize_path (''s3n:'' @ rest) = ''s3:'' @ normalize_path rest
   \<and> (endswith p ''/'' \<longrightarrow> strappend p ''/'' = p)
   \<and> (\<not> endswith p ''/'' \<longrightarrow> strappend p ''/'' = p @ ''/'')
   \<and> strappend (strappend p ''/'') ''/'' = strappend p ''/''"
  using normalize_examples normalize_s3a [of rest] normalize_s3n [of rest]
    strappend_idem [of p "''/''"]
  by (simp add: strappend_def)

theorem path_normalization_witness:
  "strappend ''/data/'' ''/'' = ''/data/'' \<and> strappend ''s3://bucket/x'' ''/'' = ''s3://bucket/x/''"
proof -
  have a: "endswith ''/data/'' ''/''" by (simp add: endswith_def)
  have b: "\<not> endswith ''s3://bucket/x'' ''/''" by (simp add: endswith_def)
  from path_normalization [of "[]" "''/data/''"] a
  have 1: "strappend ''/data/'' ''/'' = ''/data/''" by blast
  from path_normalization [of "[]" "''s3://bucket/x''"] b
  have 2: "strappend ''s3://bucket/x'' ''/'' = ''s3://bucket/x'' @ ''/''" by blast
  from 1 2 show ?thesis by simp
qed


section \<open>The configuration export file\<close>






section \<open>The cluster master address\<close>

lemma is_in_subset: "is_in sub s \<Longrightarrow> set sub \<subseteq> set s"
proof (induction s)
  case Nil
  then show ?case by simp
next
  case (Cons c cs)
  show ?case
  proof (cases "startswith (c # cs) sub")
    case True
    then have "sub = take (length sub) (c # cs)" by (simp add: startswith_def)
    then have "set sub \<subseteq> set (c # cs)" by (metis set_take_subset)
    then show ?thesis .
  next
    case False
    with Cons show ?thesis by auto
  qed
qed

lemma value_of_line_Inr:
  assumes "CHR ''='' \<in> set line"
  shows "value_of_line line = Inr (strip_nl (tl (dropWhile (\<lambda>c. c \<noteq> CHR ''='') line)))"
proof -
  from assms have "dropWhile (\<lambda>c. c \<noteq> CHR ''='') line \<noteq> []" by simp
  then obtain c rest where "dropWhile (\<lambda>c. c \<noteq> CHR ''='') line = c # rest"
    by (cases "dropWhile (\<lambda>c. c \<noteq> CHR ''='') line") auto
  then show ?thesis
    by (simp add: value_of_line_def split_eq_def item_def and_then_def)
qed

lemma value_of_assignment:
  "is_in (k @ ''='') line \<Longrightarrow>
     value_of_line line = Inr (strip_nl (tl (dropWhile (\<lambda>c. c \<noteq> CHR ''='') line)))"
  by (rule value_of_line_Inr) (use is_in_subset in fastforce)

lemma parse_line_total:
  "parse_line v line =
     Inr \<lparr>spark_host =
            (if is_in ''SPARK_MASTER_HOST='' line
             then strip_nl (tl (dropWhile (\<lambda>c. c \<noteq> CHR ''='') line)) else spark_host v),
          spark_port =
            (if is_in ''SPARK_MASTER_PORT='' line
             then strip_nl (tl (dropWhile (\<lambda>c. c \<noteq> CHR ''='') line)) else spark_port v),
          spark_master =
            (if is_in ''SPARK_MASTER='' line
             then Some (strip_nl (tl (dropWhile (\<lambda>c. c \<noteq> CHR ''='') line)))
             else spark_master v)\<rparr>"
proof -
  have h: "is_in ''SPARK_MASTER_HOST='' line \<Longrightarrow>
      value_of_line line = Inr (strip_nl (tl (dropWhile (\<lambda>c. c \<noteq> CHR ''='') line)))"
    using value_of_assignment [of "''SPARK_MASTER_HOST''" line] by simp
  have p: "is_in ''SPARK_MASTER_PORT='' line \<Longrightarrow>
      value_of_line line = Inr (strip_nl (tl (dropWhile (\<lambda>c. c \<noteq> CHR ''='') line)))"
    using value_of_assignment [of "''SPARK_MASTER_PORT''" line] by simp
  have m: "is_in ''SPARK_MASTER='' line \<Longrightarrow>
      value_of_line line = Inr (strip_nl (tl (dropWhile (\<lambda>c. c \<noteq> CHR ''='') line)))"
    using value_of_assignment [of "''SPARK_MASTER''" line] by simp
  show ?thesis
    unfolding parse_line_def and_then_def
    by (cases "is_in ''SPARK_MASTER_HOST='' line"; cases "is_in ''SPARK_MASTER_PORT='' line";
        cases "is_in ''SPARK_MASTER='' line") (simp_all add: h p m)
qed

lemma parse_lines_total: "\<exists>v'. parse_lines v ls = Inr v'"
  by (induction ls arbitrary: v) (simp_all add: parse_line_total and_then_def)

lemma parse_lines_master_unbound:
  "\<forall>line \<in> set ls. \<not> is_in ''SPARK_MASTER='' line \<Longrightarrow> parse_lines v ls = Inr v' \<Longrightarrow>
     spark_master v' = spark_master v"
  by (induction ls arbitrary: v) (auto simp: parse_line_total and_then_def)

text \<open>
  Claim C2. The claim expects \<^verbatim>\<open>spark://h:p\<close> under \<^verbatim>\<open>SPARK_MASTER\<close> when the file
  assigns host and port and no master, and a logged report otherwise. The local
  variable \<^verbatim>\<open>spark_master\<close> is never initialised, so for every startup file in which
  no line contains \<^verbatim>\<open>SPARK_MASTER=\<close> the first read of the variable raises
  \<^verbatim>\<open>UnboundLocalError\<close>: nothing is stored, nothing is logged, and the remaining
  assembly steps do not run.
\<close>

theorem spark_master_unbound:
  assumes "\<forall>line \<in> set (file_lines (bashrc w)). \<not> is_in ''SPARK_MASTER='' line"
  shows "assemble_environment w st = Inl (UnboundLocalError ''spark_master'', st)"
proof -
  obtain v where v: "parse_bashrc (bashrc w) = Inr v"
    using parse_lines_total by (auto simp: parse_bashrc_def)
  with assms have "spark_master v = None"
    using parse_lines_master_unbound [of "file_lines (bashrc w)"
        "\<lparr>spark_host = [], spark_port = [], spark_master = None\<rparr>" v]
    by (simp add: parse_bashrc_def)
  with v show ?thesis
    by (simp add: assemble_environment_def build_spark_master_def)
qed

theorem spark_master_unbound_witness:
  "assemble_environment
     (ex_world\<lparr>bashrc := ex_bashrc_host_port\<rparr>)
     (initial_state ex_world) =
   Inl (UnboundLocalError ''spark_master'', initial_state ex_world)"
proof -
  have "\<forall>line \<in> set (file_lines (bashrc
      (ex_world\<lparr>bashrc := ex_bashrc_host_port\<rparr>))).
      \<not> is_in ''SPARK_MASTER='' line"
    by (simp add: ex_bashrc_host_port_def startswith_def)
  then show ?thesis by (rule spark_master_unbound)
qed


lemma str_replace_absent:
  "old \<noteq> [] \<Longrightarrow> \<not> is_in old s \<Longrightarrow> str_replace old new s = s"
  by (induction s) (simp_all add: str_replace.simps [of old new "[]"] str_replace_Cons)

lemma master_verbatim:
  assumes "spark_master v = Some m" and "m \<noteq> []" and "\<not> is_in ''$'' m"
  shows "build_spark_master v st = Inr (m, st)"
proof -
  have d: "CHR ''$'' \<notin> set m"
    using assms(3) by (induction m) (auto simp: startswith_def)
  have "\<not> is_in ''$SPARK_MASTER_HOST'' m" "\<not> is_in ''$SPARK_MASTER_PORT'' m"
    using d is_in_subset by fastforce+
  then show ?thesis
    using assms by (simp add: build_spark_master_def str_replace_absent)
qed

lemma master_with_placeholder:
  assumes "spark_master v = Some m" and "is_in ''$'' m"
    and "spark_host v \<noteq> []" and "spark_port v \<noteq> []"
  shows "build_spark_master v st = Inr (''spark://'' @ spark_host v @ '':'' @ spark_port v, st)"
  using assms by (simp add: build_spark_master_def)


lemma set_all_Cons: "set_all ((k, v) # kvs) st = set_all kvs (set_env k v st)"
  by (simp add: set_all_def)

lemma entry_set_all:
  "map_of (environment (set_all kvs st)) k =
     (case map_of (rev kvs) k of None \<Rightarrow> map_of (environment st) k | Some v \<Rightarrow> Some v)"
  by (induction kvs arbitrary: st)
     (auto simp: set_all_def set_env_def update_conv' map_of_append map_add_def
       split: option.splits)

lemma entry_set_all_other:
  "k \<notin> set (map fst kvs) \<Longrightarrow>
     map_of (environment (set_all kvs st)) k = map_of (environment st) k"
proof -
  assume "k \<notin> set (map fst kvs)"
  then have "map_of (rev kvs) k = None"
    by (simp add: map_of_eq_None_iff)
  then show ?thesis by (simp add: entry_set_all)
qed

lemma assemble_paths_eq:
  "assemble_paths w st =
     (case strappend_or_dict w (paths_source (paths_of (read_config w))) of
        Inl e \<Rightarrow> Inl (e, st)
      | Inr s \<Rightarrow>
          (case strappend_or_dict w (paths_intermediate (paths_of (read_config w))) of
             Inl e \<Rightarrow> Inl (e, set_env ''C360_SOURCE_PATH'' s st)
           | Inr i \<Rightarrow> Inr (set_all (path_assignments w s i) st)))"
  by (simp add: assemble_paths_def Let_def then_run_def set_env_result_def set_all_Cons
      path_assignments_def split: sum.splits)

lemma assemble_paths_Inr:
  assumes "paths_source (paths_of (read_config w)) = Some s"
    and "paths_intermediate (paths_of (read_config w)) = Some i"
  shows "assemble_paths w st =
     Inr (set_all (path_assignments w (strappend s ''/'') (strappend i ''/'')) st)"
  using assms by (simp add: assemble_paths_eq strappend_or_dict_def)

lemma ex_paths:
  "paths_source (paths_of ex_config) = Some ''s3a://bucket/src''"
  "paths_intermediate (paths_of ex_config) = Some ''s3n://bucket/int/''"
  by (simp_all add: paths_of_def processing_of_def ex_config_def get_or_def)

lemma parse_placeholders:
  "parse_bashrc ex_bashrc_placeholders =
     Inr \<lparr>spark_host = ''h'', spark_port = ''7077'',
          spark_master = Some ''yarn://$SPARK_MASTER_HOST:$SPARK_MASTER_PORT/x''\<rparr>"
  by (simp add: parse_bashrc_def ex_bashrc_placeholders_def parse_line_total and_then_def
      startswith_def strip_nl_def)

text \<open>
  Claim C3. The claim expects the placeholders of an assigned master to be replaced by
  the parsed host and port. The two \<^verbatim>\<open>replace\<close> calls stand in the branch taken when
  the value holds no \<^verbatim>\<open>$\<close>, where they change nothing; a value with a placeholder goes
  to the other branch and is discarded for \<^verbatim>\<open>spark://host:port\<close>. For the master
  \<^verbatim>\<open>yarn://$SPARK_MASTER_HOST:$SPARK_MASTER_PORT/x\<close> with host \<^verbatim>\<open>h\<close> and port
  \<^verbatim>\<open>7077\<close> the entry is \<^verbatim>\<open>spark://h:7077\<close>, and the substitution would have given
  \<^verbatim>\<open>yarn://h:7077/x\<close>.
\<close>

theorem master_placeholders_not_substituted:
  "entry_of (assemble_environment (ex_world\<lparr>bashrc := ex_bashrc_placeholders\<rparr>)
       (initial_state ex_world)) ''SPARK_MASTER'' = Some ''spark://h:7077''
   \<and> str_replace ''$SPARK_MASTER_PORT'' ''7077''
       (str_replace ''$SPARK_MASTER_HOST'' ''h''
          ''yarn://$SPARK_MASTER_HOST:$SPARK_MASTER_PORT/x'') = ''yarn://h:7077/x''"
proof
  have w: "read_config (ex_world\<lparr>bashrc := ex_bashrc_placeholders\<rparr>) = ex_config"
    by (simp add: ex_world_def)
  show "entry_of (assemble_environment (ex_world\<lparr>bashrc := ex_bashrc_placeholders\<rparr>)
       (initial_state ex_world)) ''SPARK_MASTER'' = Some ''spark://h:7077''"
    by (simp add: assemble_environment_def parse_placeholders build_spark_master_def
        startswith_def assemble_paths_Inr [where s = "''s3a://bucket/src''"
          and i = "''s3n://bucket/int/''"] w ex_paths entry_of_def entry_set_all
        path_assignments_def assemble_lookups_def Let_def set_env_def update_conv')
  show "str_replace ''$SPARK_MASTER_PORT'' ''7077''
       (str_replace ''$SPARK_MASTER_HOST'' ''h''
          ''yarn://$SPARK_MASTER_HOST:$SPARK_MASTER_PORT/x'') = ''yarn://h:7077/x''"
    by (simp add: str_replace_Cons str_replace_Nil startswith_def)
qed



section \<open>Precedence of the derived keys\<close>

lemma assemble_paths_cases:
  assumes "assemble_paths w st = Inr st'"
  obtains s i where "strappend_or_dict w (paths_source (paths_of (read_config w))) = Inr s"
    and "strappend_or_dict w (paths_intermediate (paths_of (read_config w))) = Inr i"
    and "st' = set_all (path_assignments w s i) st"
  using assms by (auto simp: assemble_paths_eq split: sum.splits)

lemma assemble_environment_cases:
  assumes "assemble_environment w st = Inr st'"
  obtains v m st1 where "parse_bashrc (bashrc w) = Inr v"
    and "build_spark_master v st = Inr (m, st1)"
    and "assemble_paths w (assemble_lookups w (set_env ''SPARK_MASTER'' m st1)) = Inr st'"
  using assms
  by (auto simp: assemble_environment_def split: sum.splits prod.splits)

lemma path_keys_configuration_only:
  assumes "assemble_environment w st = Inr st'"
  shows "Inr (the (map_of (environment st') ''C360_SOURCE_PATH'')) =
           strappend_or_dict w (paths_source (paths_of (read_config w)))"
    and "Inr (the (map_of (environment st') ''C360_INTERMEDIATE_PATH'')) =
           strappend_or_dict w (paths_intermediate (paths_of (read_config w)))"
    and "map_of (environment st') ''C360_TARGET_PATH'' =
           Some (strappend (get_or (paths_final (paths_of (read_config w))) []) ''/'')"
    and "map_of (environment st') ''C360_TEMP_PATH'' =
           Some (strappend (get_or (internal_temporary (internal_of (read_config w))) []) ''/'')"
proof -
  from assms obtain st2 where "assemble_paths w st2 = Inr st'"
    by (rule assemble_environment_cases)
  then obtain s i where s: "strappend_or_dict w (paths_source (paths_of (read_config w))) = Inr s"
    and i: "strappend_or_dict w (paths_intermediate (paths_of (read_config w))) = Inr i"
    and st': "st' = set_all (path_assignments w s i) st2"
    by (rule assemble_paths_cases)
  show "Inr (the (map_of (environment st') ''C360_SOURCE_PATH'')) =
           strappend_or_dict w (paths_source (paths_of (read_config w)))"
    by (simp add: st' s entry_set_all path_assignments_def)
  show "Inr (the (map_of (environment st') ''C360_INTERMEDIATE_PATH'')) =
           strappend_or_dict w (paths_intermediate (paths_of (read_config w)))"
    by (simp add: st' i entry_set_all path_assignments_def)
  show "map_of (environment st') ''C360_TARGET_PATH'' =
           Some (strappend (get_or (paths_final (paths_of (read_config w))) []) ''/'')"
    by (simp add: st' entry_set_all path_assignments_def)
  show "map_of (environment st') ''C360_TEMP_PATH'' =
           Some (strappend (get_or (internal_temporary (internal_of (read_config w))) []) ''/'')"
    by (simp add: st' entry_set_all path_assignments_def)
qed

lemma lookup_keys_precedence:
  assumes "assemble_environment w st = Inr st'"
  shows "map_of (environment st') ''C360_CLIENT'' =
           Some (environ_get (environ w) ''C360_CLIENT''
                  (get_or (general_client (general_of (read_config w)))
                     (environ_get (environ w) ''C360_ENVIRONMENT'' [])))"
    and "map_of (environment st') ''CB_DATA_BUCKET'' =
           Some (environ_get (environ w) ''CB_DATA_BUCKET''
                  (get_or (cb_bucket (couchbase_of (read_config w))) ''c360''))"
    and "map_of (environment st') ''CB_INDEX_BUCKET'' =
           Some (environ_get (environ w) ''CB_INDEX_BUCKET''
                  (get_or (cb_index (couchbase_of (read_config w))) ''c360''))"
    and "map_of (environment st') ''CB_STATISTICS_BUCKET'' =
           Some (environ_get (environ w) ''CB_STATISTICS_BUCKET''
                  (get_or (cb_statistics (couchbase_of (read_config w))) ''c360_statistics''))"
    and "map_of (environment st') ''S3_ENDPOINT'' =
           Some (environ_get (environ w) ''S3_ENDPOINT''
                  (get_or (s3_endpoint (s3_of (read_config w))) []))"
    and "map_of (environment st') ''S3_ACCESSKEY'' =
           Some (environ_get (environ w) ''S3_ACCESSKEY''
                  (get_or (s3_accesskey (s3_of (read_config w))) []))"
    and "map_of (environment st') ''S3_SECRETKEY'' =
           Some (environ_get (environ w) ''S3_SECRETKEY''
                  (get_or (s3_secretkey (s3_of (read_config w))) ''ignored''))"
proof -
  from assms obtain m st1 where
    "assemble_paths w (assemble_lookups w (set_env ''SPARK_MASTER'' m st1)) = Inr st'"
    by (rule assemble_environment_cases)
  then obtain s i where st': "st' = set_all (path_assignments w s i)
        (assemble_lookups w (set_env ''SPARK_MASTER'' m st1))"
    by (rule assemble_paths_cases)
  have other: "map_of (environment st') k =
      map_of (environment (assemble_lookups w (set_env ''SPARK_MASTER'' m st1))) k"
    if "k \<notin> set [''C360_SOURCE_PATH'', ''C360_INTERMEDIATE_PATH'', ''C360_TARGET_PATH'',
        ''C360_TEMP_PATH'', ''C360_LOCAL_SOURCE_PATH'', ''C360_LOCAL_INTERMEDIATE_PATH'',
        ''C360_LOCAL_TARGET_PATH'']" for k
    unfolding st' by (rule entry_set_all_other) (use that in \<open>simp add: path_assignments_def\<close>)
  note ev = assemble_lookups_def Let_def entry_set_all
  show "map_of (environment st') ''C360_CLIENT'' =
           Some (environ_get (environ w) ''C360_CLIENT''
                  (get_or (general_client (general_of (read_config w)))
                     (environ_get (environ w) ''C360_ENVIRONMENT'' [])))"
    by (subst other) (simp_all add: ev)
  show "map_of (environment st') ''CB_DATA_BUCKET'' =
           Some (environ_get (environ w) ''CB_DATA_BUCKET''
                  (get_or (cb_bucket (couchbase_of (read_config w))) ''c360''))"
    by (subst other) (simp_all add: ev)
  show "map_of (environment st') ''CB_INDEX_BUCKET'' =
           Some (environ_get (environ w) ''CB_INDEX_BUCKET''
                  (get_or (cb_index (couchbase_of (read_config w))) ''c360''))"
    by (subst other) (simp_all add: ev)
  show "map_of (environment st') ''CB_STATISTICS_BUCKET'' =
           Some (environ_get (environ w) ''CB_STATISTICS_BUCKET''
                  (get_or (cb_statistics (couchbase_of (read_config w))) ''c360_statistics''))"
    by (subst other) (simp_all add: ev)
  show "map_of (environment st') ''S3_ENDPOINT'' =
           Some (environ_get (environ w) ''S3_ENDPOINT''
                  (get_or (s3_endpoint (s3_of (read_config w))) []))"
    by (subst other) (simp_all add: ev)
  show "map_of (environment st') ''S3_ACCESSKEY'' =
           Some (environ_get (environ w) ''S3_ACCESSKEY''
                  (get_or (s3_accesskey (s3_of (read_config w))) []))"
    by (subst other) (simp_all add: ev)
  show "map_of (environment st') ''S3_SECRETKEY'' =
           Some (environ_get (environ w) ''S3_SECRETKEY''
                  (get_or (s3_secretkey (s3_of (read_config w))) ''ignored''))"
    by (subst other) (simp_all add: ev)
qed

lemma parse_ex_bashrc:
  "parse_bashrc (bashrc ex_world) =
     Inr \<lparr>spark_host = [], spark_port = [], spark_master = Some ''spark://m:7077''\<rparr>"
  by (simp add: parse_bashrc_def ex_world_def parse_line_total and_then_def
      startswith_def strip_nl_def)

text \<open>
  Claim C1. The seven keys of \<open>lookup_keys_precedence\<close> are resolved from the process
  environment first, then from the configuration, then from a default. The path keys
  are not: with \<^verbatim>\<open>C360_SOURCE_PATH=/env/src/\<close> in the process environment and
  \<^verbatim>\<open>s3a://bucket/src\<close> stored in the configuration, the entry of the table is the
  stored path with its separator.
\<close>

theorem path_key_ignores_process_environment:
  "environ (ex_world\<lparr>environ := ex_env(''C360_SOURCE_PATH'' \<mapsto> ''/env/src/'')\<rparr>)
       ''C360_SOURCE_PATH'' = Some ''/env/src/''
   \<and> entry_of (assemble_environment
         (ex_world\<lparr>environ := ex_env(''C360_SOURCE_PATH'' \<mapsto> ''/env/src/'')\<rparr>)
         (initial_state ex_world)) ''C360_SOURCE_PATH'' = Some ''s3a://bucket/src/''"
proof
  let ?w = "ex_world\<lparr>environ := ex_env(''C360_SOURCE_PATH'' \<mapsto> ''/env/src/'')\<rparr>"
  show "environ ?w ''C360_SOURCE_PATH'' = Some ''/env/src/''"
    by simp
  have c: "read_config ?w = ex_config" and b: "bashrc ?w = bashrc ex_world"
    by (simp_all add: ex_world_def)
  have m: "build_spark_master
      \<lparr>spark_host = [], spark_port = [], spark_master = Some ''spark://m:7077''\<rparr>
      (initial_state ex_world) = Inr (''spark://m:7077'', initial_state ex_world)"
    by (rule master_verbatim) (simp_all add: startswith_def)
  show "entry_of (assemble_environment ?w (initial_state ex_world)) ''C360_SOURCE_PATH'' =
      Some ''s3a://bucket/src/''"
    by (simp add: assemble_environment_def b parse_ex_bashrc m
        assemble_paths_Inr [where s = "''s3a://bucket/src''" and i = "''s3n://bucket/int/''"]
        c ex_paths entry_of_def entry_set_all path_assignments_def strappend_def endswith_def)
qed


section \<open>The transfer scripts\<close>

text \<open>
  The two line lists of \<open>transfer_lines\<close> are what \<^verbatim>\<open>write_transfer_script\<close> joins
  with newlines and writes, the download script first; when the loop over the catalog
  raises, nothing is written.
\<close>

lemma write_transfer_script_writes:
  assumes "write_transfer_script w st = Inr st'"
  shows "\<exists>download_lines upload_lines.
     transfer_lines (environment st)
       (get_or (processing_entities (processing_of (read_config w))) []) =
       Inr (download_lines, upload_lines) \<and>
     files st' = files st @
       [\<lparr>file_name = home_directory w @ ''/download_files.sh'',
         file_content = join_nl download_lines, file_mode = Some 448\<rparr>,
        \<lparr>file_name = home_directory w @ ''/upload_files.sh'',
         file_content = join_nl upload_lines, file_mode = Some 448\<rparr>]"
  using assms
  by (auto simp: write_transfer_script_def write_file_def split: sum.splits prod.splits)

lemma write_transfer_script_raises:
  assumes "write_transfer_script w st = Inl (e, st')"
  shows "st' = st \<and> transfer_lines (environment st)
       (get_or (processing_entities (processing_of (read_config w))) []) = Inl e"
  using assms
  by (auto simp: write_transfer_script_def write_file_def split: sum.splits prod.splits)

subsection \<open>Lines of a text\<close>

lemma split_nl_not_Nil: "split_nl s \<noteq> []"
  by (induction s) (auto split: list.splits)

lemma split_nl_append:
  "split_nl (a @ CHR 0x0A # b) = split_nl a @ split_nl b"
proof (induction a)
  case Nil
  then show ?case by simp
next
  case (Cons c cs)
  obtain l ls where "split_nl cs = l # ls"
    using split_nl_not_Nil [of cs] by (cases "split_nl cs") auto
  with Cons show ?case by simp
qed

lemma split_nl_single: "no_newline s \<Longrightarrow> split_nl s = [s]"
  by (induction s) (auto simp: no_newline_def)

lemma split_nl_join:
  "xs \<noteq> [] \<Longrightarrow> split_nl (join_nl xs) = concat (map split_nl xs)"
  by (induction xs rule: join_nl.induct) (simp_all add: split_nl_append)

lemma script_lines_concat:
  "xs \<noteq> [] \<Longrightarrow> script_lines xs = concat (map split_nl xs)"
  by (simp add: script_lines_def split_nl_join)

lemma split_nl_join_single:
  "list_all no_newline xs \<Longrightarrow> xs \<noteq> [] \<Longrightarrow> split_nl (join_nl xs) = xs"
  by (induction xs rule: join_nl.induct) (simp_all add: split_nl_append split_nl_single)

lemma concat_split_single:
  "list_all no_newline xs \<Longrightarrow> concat (map split_nl xs) = xs"
  by (induction xs) (simp_all add: split_nl_single)

lemma no_newline_append [simp]: "no_newline (a @ b) = (no_newline a \<and> no_newline b)"
  by (auto simp: no_newline_def)

lemma no_newline_Cons: "no_newline (c # s) = (c \<noteq> CHR 0x0A \<and> no_newline s)"
  by (auto simp: no_newline_def)

lemma no_newline_Nil [simp]: "no_newline []"
  by (simp add: no_newline_def)

lemma no_newline_drop: "no_newline s \<Longrightarrow> no_newline (drop n s)"
  by (auto simp: no_newline_def dest: in_set_dropD)

lemma no_newline_str_replace:
  "old \<noteq> [] \<Longrightarrow> no_newline new \<Longrightarrow> no_newline s \<Longrightarrow> no_newline (str_replace old new s)"
proof (induction old new s rule: str_replace.induct)
  case (1 old new s)
  show ?case
  proof (cases s)
    case Nil
    with 1 show ?thesis by (simp add: str_replace_Nil)
  next
    case (Cons c cs)
    show ?thesis
    proof (cases "startswith s old")
      case True
      have "no_newline (str_replace old new (drop (length old) s))"
        using 1 True Cons by (intro "1.IH"(1)) (simp_all add: no_newline_drop)
      with 1 True Cons show ?thesis
        by (simp add: str_replace_Cons)
    next
      case False
      have "no_newline (str_replace old new (tl s))"
        using 1 False Cons by (intro "1.IH"(2)) (simp_all add: no_newline_Cons)
      with 1 False Cons show ?thesis
        by (simp add: str_replace_Cons no_newline_Cons)
    qed
  qed
qed

lemma no_newline_normalize: "no_newline p \<Longrightarrow> no_newline (normalize_path p)"
  by (simp add: normalize_path_def no_newline_str_replace no_newline_Cons)


lemma source_loop_acc:
  "source_loop src ents names acc =
     and_then (source_loop src ents names []) (\<lambda>added. Inr (acc @ added))"
proof (induction names arbitrary: acc)
  case Nil
  then show ?case by (simp add: and_then_def)
next
  case (Cons n ns)
  show ?case
  proof (cases "entity_download src n (map_of ents n)")
    case (Inl e)
    then show ?thesis by (simp add: and_then_def)
  next
    case (Inr a)
    have "source_loop src ents ns (acc @ a) =
        and_then (source_loop src ents ns []) (\<lambda>added. Inr ((acc @ a) @ added))"
      by (rule Cons.IH)
    moreover have "source_loop src ents ns a =
        and_then (source_loop src ents ns []) (\<lambda>added. Inr (a @ added))"
      by (rule Cons.IH)
    ultimately show ?thesis
      using Inr by (simp add: and_then_def split: sum.splits)
  qed
qed

lemma transfer_lines_eq:
  "transfer_lines table entities =
     (if startswith (source_path_of table) ''s3''
      then and_then (source_loop (source_path_of table) entities (map fst entities) [])
             (\<lambda>added.
                Inr (download_header (temporary_path_of table) @
                       (if startswith (intermediate_path_of table) ''s3''
                        then index_download (temporary_path_of table) (intermediate_path_of table)
                        else []) @
                       raw_directory_line (temporary_path_of table) # added,
                     ''#!/bin/bash'' #
                       (if startswith (intermediate_path_of table) ''s3''
                        then index_upload (temporary_path_of table) (intermediate_path_of table)
                        else []) @
                       (if startswith (target_path_of table) ''s3''
                        then target_upload (temporary_path_of table) (target_path_of table)
                        else [])))
      else Inr (download_header (temporary_path_of table) @
                  (if startswith (intermediate_path_of table) ''s3''
                   then index_download (temporary_path_of table) (intermediate_path_of table)
                   else []),
                ''#!/bin/bash'' #
                  (if startswith (intermediate_path_of table) ''s3''
                   then index_upload (temporary_path_of table) (intermediate_path_of table)
                   else []) @
                  (if startswith (target_path_of table) ''s3''
                   then target_upload (temporary_path_of table) (target_path_of table)
                   else [])))"
  unfolding transfer_lines_def Let_def
  by (subst source_loop_acc)
     (simp add: and_then_def source_path_of_def temporary_path_of_def intermediate_path_of_def
       target_path_of_def download_header_def split: sum.splits)


subsection \<open>The lines of the written scripts\<close>

text \<open>
  The lines of a written script are the lines of the last file written under its name.
  After a run of \<^verbatim>\<open>write_transfer_script\<close> that returns, they are the lines of the two lists
  of \<open>transfer_lines\<close>, each list joined with newlines and split again.
\<close>

lemma written_lines_last:
  assumes "name' \<noteq> name"
  shows "written_lines name
      (Inr (st\<lparr>files := files st @
          [\<lparr>file_name = name, file_content = c, file_mode = m\<rparr>,
           \<lparr>file_name = name', file_content = c', file_mode = m'\<rparr>]\<rparr>)) = split_nl c"
    and "written_lines name'
      (Inr (st\<lparr>files := files st @
          [\<lparr>file_name = name, file_content = c, file_mode = m\<rparr>,
           \<lparr>file_name = name', file_content = c', file_mode = m'\<rparr>]\<rparr>)) = split_nl c'"
  using assms by (simp_all add: written_lines_def Let_def)

lemma script_names_differ: "upload_file_name w \<noteq> download_file_name w"
  by (simp add: upload_file_name_def download_file_name_def)

lemma written_lines_transfer:
  assumes "transfer_lines (environment st) (catalog_of w) = Inr (dl, ul)"
  shows "written_lines (download_file_name w) (write_transfer_script w st) = script_lines dl"
    and "written_lines (upload_file_name w) (write_transfer_script w st) = script_lines ul"
proof -
  have r: "write_transfer_script w st =
      Inr (st\<lparr>files := files st @
          [\<lparr>file_name = download_file_name w, file_content = join_nl dl, file_mode = Some 448\<rparr>,
           \<lparr>file_name = upload_file_name w, file_content = join_nl ul,
            file_mode = Some 448\<rparr>]\<rparr>)"
    using assms
    by (simp add: write_transfer_script_def catalog_of_def write_file_def
        download_file_name_def upload_file_name_def)
  show "written_lines (download_file_name w) (write_transfer_script w st) = script_lines dl"
    unfolding r script_lines_def by (rule written_lines_last(1) [OF script_names_differ])
  show "written_lines (upload_file_name w) (write_transfer_script w st) = script_lines ul"
    unfolding r script_lines_def by (rule written_lines_last(2) [OF script_names_differ])
qed

lemma write_transfer_script_returns:
  assumes "write_transfer_script w st = Inr st'"
  obtains dl ul where "transfer_lines (environment st) (catalog_of w) = Inr (dl, ul)"
  using assms
  by (auto simp: write_transfer_script_def catalog_of_def split: sum.splits prod.splits)

lemma write_transfer_script_raised:
  "transfer_lines (environment st) (catalog_of w) = Inl e \<Longrightarrow>
     write_transfer_script w st = Inl (e, st)"
  by (simp add: write_transfer_script_def catalog_of_def)

lemma download_header_eq: "download_header tmp = [''#!/bin/bash'', mkdir_line tmp]"
  by (simp add: download_header_def mkdir_line_def)

lemma index_fetch_line_eq:
  "index_download tmp ipath ! 1 = index_fetch_line ipath"
  by (simp add: index_download_def index_fetch_line_def identifier_filename_def)

lemma fetch_line_no_newline:
  "no_newline src \<Longrightarrow> no_newline name \<Longrightarrow> no_newline (fetch_line src name)"
  by (simp add: fetch_line_def no_newline_Cons)

lemma split_fetch_group:
  assumes "no_newline src" and "list_all no_newline names"
  shows "split_nl (fetch_group src names) =
     (if names = [] then [[]] else map (fetch_line src) names)"
proof (cases "names = []")
  case True
  then show ?thesis by (simp add: fetch_group_def)
next
  case False
  have "list_all no_newline (map (fetch_line src) names)"
    using assms by (simp add: list_all_iff fetch_line_no_newline)
  with False show ?thesis
    by (simp add: fetch_group_def split_nl_join_single)
qed

lemma fetch_group_ok:
  assumes "no_newline src" and "list_all no_newline names" and "startswith src ''s3''"
    and "set names \<subseteq> set leaves"
  shows "list_all (download_line_ok ipath src leaves) (split_nl (fetch_group src names))"
  using assms(3,4)
  by (auto simp: split_fetch_group [OF assms(1,2)] list_all_iff download_line_ok_def)

lemma entity_files_leaf:
  "(name, e) \<in> set entities \<Longrightarrow> set (entity_files e) \<subseteq> set (leaf_files entities)"
  by (auto simp: leaf_files_def)

lemma entity_download_ok:
  assumes "entity_download src name (map_of entities name) = Inr added"
    and "no_newline src" and "list_all no_newline (leaf_files entities)"
    and "startswith src ''s3''"
  shows "list_all (\<lambda>e. list_all (download_line_ok ipath src (leaf_files entities)) (split_nl e))
           added"
proof (cases "map_of entities name")
  case None
  with assms(1,4) show ?thesis
    by (auto simp: entity_download_def fetch_group_def download_line_ok_def split: if_splits)
next
  case (Some e)
  then have "(name, e) \<in> set entities" by (rule map_of_SomeD)
  then have sub: "set (entity_files e) \<subseteq> set (leaf_files entities)"
    by (rule entity_files_leaf)
  with assms(3) have files: "\<forall>f \<in> set (entity_files e). no_newline f"
    by (auto simp: list_all_iff)
  show ?thesis
  proof (cases e)
    case (FlatEntity d)
    with files have "list_all no_newline (source_files d)" by (simp add: list_all_iff)
    moreover from sub FlatEntity have "set (source_files d) \<subseteq> set (leaf_files entities)"
      by simp
    ultimately have "list_all (download_line_ok ipath src (leaf_files entities))
        (split_nl (fetch_group src (source_files d)))"
      by (intro fetch_group_ok assms)
    with assms(1) Some FlatEntity show ?thesis
      by (auto simp: entity_download_def split: if_splits)
  next
    case (GroupedEntity ks)
    have "list_all (download_line_ok ipath src (leaf_files entities))
        (split_nl (fetch_group src (source_files k)))"
      if "k \<in> set ks" for k
    proof -
      from that files GroupedEntity have "list_all no_newline (source_files k)"
        by (auto simp: list_all_iff)
      moreover from that sub GroupedEntity
      have "set (source_files k) \<subseteq> set (leaf_files entities)"
        by auto
      ultimately show ?thesis by (intro fetch_group_ok assms)
    qed
    with assms(1) Some GroupedEntity show ?thesis
      by (auto simp: entity_download_def list_all_iff split: if_splits)
  qed
qed

lemma source_loop_Cons_Inr:
  assumes "source_loop src entities (n # ns) [] = Inr added"
  obtains a r where "entity_download src n (map_of entities n) = Inr a"
    and "source_loop src entities ns [] = Inr r" and "added = a @ r"
proof (cases "entity_download src n (map_of entities n)")
  case (Inl e)
  with assms show ?thesis by (simp add: and_then_def)
next
  case (Inr a)
  with assms have "source_loop src entities ns a = Inr added"
    by (simp add: and_then_def)
  then have "and_then (source_loop src entities ns []) (\<lambda>r. Inr (a @ r)) = Inr added"
    by (simp only: source_loop_acc [of src entities ns a])
  then obtain r where "source_loop src entities ns [] = Inr r" and "added = a @ r"
    by (cases "source_loop src entities ns []") (auto simp: and_then_def)
  with Inr that show ?thesis by blast
qed

lemma source_loop_ok:
  assumes "no_newline src" and "list_all no_newline (leaf_files entities)"
    and "startswith src ''s3''"
  shows "source_loop src entities names [] = Inr added \<Longrightarrow>
     list_all (\<lambda>e. list_all (download_line_ok ipath src (leaf_files entities)) (split_nl e))
       added"
proof (induction names arbitrary: added)
  case Nil
  then show ?case by simp
next
  case (Cons n ns)
  from Cons.prems obtain a r where a: "entity_download src n (map_of entities n) = Inr a"
    and r: "source_loop src entities ns [] = Inr r" and added: "added = a @ r"
    by (rule source_loop_Cons_Inr)
  from a assms have "list_all
      (\<lambda>e. list_all (download_line_ok ipath src (leaf_files entities)) (split_nl e)) a"
    by (rule entity_download_ok)
  moreover from r have "list_all
      (\<lambda>e. list_all (download_line_ok ipath src (leaf_files entities)) (split_nl e)) r"
    by (rule Cons.IH)
  ultimately show ?case by (simp add: added)
qed

lemma list_all_concat_split:
  "list_all (\<lambda>e. list_all P (split_nl e)) xs \<Longrightarrow> list_all P (concat (map split_nl xs))"
  by (induction xs) simp_all

lemma plain_lines_ok:
  "list_all (\<lambda>l. no_newline l \<and> P l) xs \<Longrightarrow> list_all (\<lambda>e. list_all P (split_nl e)) xs"
  by (induction xs) (simp_all add: split_nl_single)

lemma mkdir_line_no_newline: "no_newline tmp \<Longrightarrow> no_newline (mkdir_line tmp)"
  by (simp add: mkdir_line_def no_newline_Cons)

lemma index_download_ok:
  "no_newline tmp \<Longrightarrow> no_newline ipath \<Longrightarrow> startswith ipath ''s3'' \<Longrightarrow>
     list_all (\<lambda>l. no_newline l \<and> download_line_ok ipath src leaves l)
       (index_download tmp ipath)"
  by (simp add: index_download_def identifier_filename_def download_line_ok_def
      index_fetch_line_def existence_guarded_def startswith_def no_newline_Cons)

lemma raw_directory_line_ok:
  "no_newline tmp \<Longrightarrow>
     no_newline (raw_directory_line tmp) \<and>
     download_line_ok ipath src leaves (raw_directory_line tmp)"
  by (simp add: raw_directory_line_def download_line_ok_def existence_guarded_def
      startswith_def no_newline_Cons)

lemma index_upload_ok:
  "no_newline tmp \<Longrightarrow> no_newline ipath \<Longrightarrow>
     list_all (\<lambda>l. no_newline l \<and> upload_line_ok tmp tgt l) (index_upload tmp ipath)"
  by (simp add: index_upload_def identifier_filename_def upload_line_ok_def
      existence_guarded_def startswith_def no_newline_Cons)

lemma target_upload_ok:
  "no_newline tmp \<Longrightarrow> no_newline tgt \<Longrightarrow> startswith tgt ''s3'' \<Longrightarrow>
     list_all (\<lambda>l. no_newline l \<and> upload_line_ok tmp tgt l) (target_upload tmp tgt)"
  by (simp add: target_upload_def json_directory_line_def document_upload_def
      final_documents_def upload_line_ok_def existence_guarded_def
      startswith_def no_newline_Cons)

subsection \<open>The loop over a well-shaped catalog\<close>

lemma entity_download_well_shaped:
  "well_shaped_entity (name, e) \<Longrightarrow>
     entity_download src name (Some e) = Inr (entity_groups src e)"
  by (cases e) (simp_all add: entity_download_def)

lemma source_loop_well_shaped:
  assumes "distinct (map fst entities)"
  shows "set sub \<subseteq> set entities \<Longrightarrow> list_all well_shaped_entity sub \<Longrightarrow>
     source_loop src entities (map fst sub) [] =
       Inr (concat (map (\<lambda>(name, e). entity_groups src e) sub))"
proof (induction sub)
  case Nil
  then show ?case by simp
next
  case (Cons p sub)
  obtain name e where p: "p = (name, e)" by (cases p)
  from Cons.prems p have "(name, e) \<in> set entities" by simp
  with assms have found: "map_of entities name = Some e" by (rule map_of_is_SomeI)
  from Cons.prems p have shape: "well_shaped_entity (name, e)" by simp
  from Cons have rest: "source_loop src entities (map fst sub) [] =
       Inr (concat (map (\<lambda>(name, e). entity_groups src e) sub))"
    by simp
  have "source_loop src entities (map fst (p # sub)) [] =
      source_loop src entities (map fst sub) (entity_groups src e)"
    by (simp add: p found entity_download_well_shaped [OF shape] and_then_def)
  also have "\<dots> = and_then (source_loop src entities (map fst sub) [])
      (\<lambda>added. Inr (entity_groups src e @ added))"
    by (rule source_loop_acc)
  finally show ?case
    by (simp add: rest and_then_def p)
qed

lemma source_loop_catalog:
  "well_shaped entities \<Longrightarrow>
     source_loop src entities (map fst entities) [] =
       Inr (concat (map (\<lambda>(name, e). entity_groups src e) entities))"
  by (simp add: well_shaped_def source_loop_well_shaped)

lemma fetch_line_not_blank: "fetch_line src name \<noteq> []"
  by (simp add: fetch_line_def)

lemma filter_split_fetch_group:
  assumes "no_newline src" and "list_all no_newline names"
  shows "filter (\<lambda>l. l \<noteq> []) (split_nl (fetch_group src names)) = map (fetch_line src) names"
  by (simp add: split_fetch_group [OF assms] filter_id_conv fetch_line_not_blank)

lemma filter_entity_groups:
  assumes "no_newline src" and "list_all no_newline (entity_files e)"
  shows "filter (\<lambda>l. l \<noteq> []) (concat (map split_nl (entity_groups src e))) =
     map (fetch_line src) (entity_files e)"
proof (cases e)
  case (FlatEntity d)
  with assms show ?thesis by (simp add: filter_split_fetch_group)
next
  case (GroupedEntity ks)
  have "filter (\<lambda>l. l \<noteq> []) (concat (map (\<lambda>k. split_nl (fetch_group src (source_files k))) ks)) =
      concat (map (\<lambda>k. map (fetch_line src) (source_files k)) ks)"
    if "\<forall>k \<in> set ks. list_all no_newline (source_files k)" for ks
    using that by (induction ks) (simp_all add: filter_split_fetch_group [OF assms(1)])
  moreover from assms(2) GroupedEntity
  have "\<forall>k \<in> set ks. list_all no_newline (source_files k)"
    by (auto simp: list_all_iff)
  ultimately show ?thesis
    using GroupedEntity by (simp add: comp_def map_concat)
qed

lemma filter_catalog_groups:
  assumes "no_newline src"
  shows "list_all no_newline (leaf_files entities) \<Longrightarrow>
     filter (\<lambda>l. l \<noteq> [])
       (concat (map split_nl (concat (map (\<lambda>(name, e). entity_groups src e) entities)))) =
     map (fetch_line src) (leaf_files entities)"
proof (induction entities)
  case Nil
  then show ?case by (simp add: leaf_files_def)
next
  case (Cons p entities)
  obtain name e where p: "p = (name, e)" by (cases p)
  from Cons.prems p have e: "list_all no_newline (entity_files e)"
    and rest: "list_all no_newline (leaf_files entities)"
    by (simp_all add: leaf_files_def)
  from Cons.IH [OF rest] filter_entity_groups [OF assms e] show ?case
    by (simp add: p leaf_files_def)
qed

lemma transfer_lines_local:
  "\<not> startswith (source_path_of table) ''s3'' \<Longrightarrow>
     transfer_lines table entities = transfer_lines table []"
  by (simp add: transfer_lines_eq)

lemma ex_entities_well_shaped: "well_shaped ex_entities"
  by (simp add: well_shaped_def ex_entities_def)

lemma ex_leaf_files: "leaf_files ex_entities = [''a.csv'', ''b.csv'', ''k1.csv'']"
  by (simp add: leaf_files_def ex_entities_def source_files_def get_or_def)

lemma ex_table_paths:
  "temporary_path_of ex_table = ''/nfs/tmp/''"
  "source_path_of ex_table = ''s3://bucket/src/''"
  "intermediate_path_of ex_table = ''s3://bucket/int/''"
  "target_path_of ex_table = ''s3://bucket/out/''"
  by (simp_all add: temporary_path_of_def source_path_of_def intermediate_path_of_def
      target_path_of_def ex_table_def environment_get_def normalize_path_def
      str_replace_Cons str_replace_Nil startswith_def)

lemma ex_local_table_paths:
  "temporary_path_of ex_local_table = ''/nfs/tmp/''"
  "source_path_of ex_local_table = ''/data/src/''"
  "intermediate_path_of ex_local_table = ''/data/int/''"
  "target_path_of ex_local_table = ''/data/out/''"
  by (simp_all add: temporary_path_of_def source_path_of_def intermediate_path_of_def
      target_path_of_def ex_local_table_def environment_get_def normalize_path_def
      str_replace_Cons str_replace_Nil startswith_def)

lemma ex_table_no_newline: "list_all no_newline (path_values ex_table)"
  by (simp add: path_values_def ex_table_def environment_get_def no_newline_Cons)

lemma transfer_lines_well_shaped:
  "well_shaped entities \<Longrightarrow> \<exists>dl ul. transfer_lines table entities = Inr (dl, ul)"
  by (simp add: transfer_lines_eq source_loop_catalog and_then_def)

subsection \<open>The scripts of the example tables\<close>

lemma catalog_of_ex_world: "catalog_of ex_world = ex_entities"
  by (simp add: catalog_of_def ex_world_def ex_config_def processing_of_def get_or_def)

lemma catalog_of_ex_catalog_world: "catalog_of (ex_catalog_world entities) = entities"
  by (simp add: catalog_of_def ex_catalog_world_def processing_of_def get_or_def)

lemma write_transfer_script_well_shaped:
  assumes "well_shaped (catalog_of w)"
  shows "\<exists>st'. write_transfer_script w st = Inr st'"
proof -
  obtain dl ul where "transfer_lines (environment st) (catalog_of w) = Inr (dl, ul)"
    using transfer_lines_well_shaped [OF assms] by blast
  then show ?thesis
    by (simp add: write_transfer_script_def catalog_of_def)
qed

lemma default_paths:
  "normalize_path ''/nfsmount/'' = ''/nfsmount/''"
  by (simp add: normalize_path_def str_replace_Cons str_replace_Nil startswith_def)

lemma ex_source_loop:
  "source_loop src ex_entities (map fst ex_entities) [] =
     Inr [fetch_group src [''a.csv'', ''b.csv''], fetch_group src [''k1.csv''],
          fetch_group src [], fetch_group src []]"
  by (simp add: source_loop_catalog [OF ex_entities_well_shaped])
     (simp add: ex_entities_def source_files_def get_or_def)

lemma ex_transfer_lines:
  \<open>transfer_lines ex_table ex_entities =
     Inr ([''#!/bin/bash'',
           ''mkdir -p /nfs/tmp/raw /nfs/tmp/parquet /nfs/tmp/json'',
           ''[ -d "/nfs/tmp/parquet/" ] && cd /nfs/tmp/parquet/ && pwd'',
           ''s3cmd get --force s3://bucket/int/identifier.parquet.tgz identifier.parquet.tgz'',
           ''[ -s "identifier.parquet.tgz" ] && tar -xzf identifier.parquet.tgz'',
           ''[ -s "identifier.parquet.tgz" ] && rm identifier.parquet.tgz'',
           ''[ -d "/nfs/tmp/raw" ] && cd /nfs/tmp/raw && pwd'',
           fetch_group ''s3://bucket/src/'' [''a.csv'', ''b.csv''],
           fetch_group ''s3://bucket/src/'' [''k1.csv''],
           fetch_group ''s3://bucket/src/'' [],
           fetch_group ''s3://bucket/src/'' []],
          [''#!/bin/bash'',
           ''[ -d "/nfs/tmp/parquet" ] && cd /nfs/tmp/parquet'',
           ''[ -d "identifier.parquet" ] && tar -czf identifier.parquet.tgz identifier.parquet'',
           ''[ -s "identifier.parquet.tgz" ] && s3cmd put identifier.parquet.tgz s3://bucket/int/identifier.parquet.tgz'',
           ''cd /nfs/tmp/json || (echo "Cannot find /nfs/tmp/ for uploading final documents."; exit 1)'',
           ''[ -d "person.json" ] && tar -czf person.json.tgz person.json'',
           ''[ -s "person.json.tgz" ] && s3cmd put person.json.tgz s3://bucket/out/person.json.tgz'',
           ''[ -d "organization.json" ] && tar -czf organization.json.tgz organization.json'',
           ''[ -s "organization.json.tgz" ] && s3cmd put organization.json.tgz s3://bucket/out/organization.json.tgz'',
           ''[ -d "index.json" ] && tar -czf index.json.tgz index.json'',
           ''[ -s "index.json.tgz" ] && s3cmd put index.json.tgz s3://bucket/out/index.json.tgz'',
           ''[ -d "event.json" ] && tar -czf event.json.tgz event.json'',
           ''[ -s "event.json.tgz" ] && s3cmd put event.json.tgz s3://bucket/out/event.json.tgz''])\<close>
  by (simp add: transfer_lines_eq ex_table_paths ex_source_loop
      and_then_def startswith_def download_header_def index_download_def index_upload_def
      raw_directory_line_def target_upload_def json_directory_line_def document_upload_def
      final_documents_def identifier_filename_def)

lemma environment_ex_state [simp]: "environment (ex_state table) = table"
  by (simp add: ex_state_def)

lemma ex_download_lines:
  \<open>written_lines (download_file_name ex_world)
       (write_transfer_script ex_world (ex_state ex_table)) =
     [''#!/bin/bash'',
      ''mkdir -p /nfs/tmp/raw /nfs/tmp/parquet /nfs/tmp/json'',
      ''[ -d "/nfs/tmp/parquet/" ] && cd /nfs/tmp/parquet/ && pwd'',
      ''s3cmd get --force s3://bucket/int/identifier.parquet.tgz identifier.parquet.tgz'',
      ''[ -s "identifier.parquet.tgz" ] && tar -xzf identifier.parquet.tgz'',
      ''[ -s "identifier.parquet.tgz" ] && rm identifier.parquet.tgz'',
      ''[ -d "/nfs/tmp/raw" ] && cd /nfs/tmp/raw && pwd'',
      ''s3cmd get --force s3://bucket/src/a.csv a.csv'',
      ''s3cmd get --force s3://bucket/src/b.csv b.csv'',
      ''s3cmd get --force s3://bucket/src/k1.csv k1.csv'',
      [],
      []]\<close>
proof -
  have t: "transfer_lines (environment (ex_state ex_table)) (catalog_of ex_world) =
      transfer_lines ex_table ex_entities"
    by (simp add: catalog_of_ex_world)
  show ?thesis
    by (simp only: written_lines_transfer(1) [OF t [unfolded ex_transfer_lines]])
       (simp add: script_lines_concat split_fetch_group split_nl_single no_newline_Cons
         fetch_line_def)
qed

lemma ex_upload_lines:
  \<open>written_lines (upload_file_name ex_world)
       (write_transfer_script ex_world (ex_state ex_table)) =
     [''#!/bin/bash'',
      ''[ -d "/nfs/tmp/parquet" ] && cd /nfs/tmp/parquet'',
      ''[ -d "identifier.parquet" ] && tar -czf identifier.parquet.tgz identifier.parquet'',
      ''[ -s "identifier.parquet.tgz" ] && s3cmd put identifier.parquet.tgz s3://bucket/int/identifier.parquet.tgz'',
      ''cd /nfs/tmp/json || (echo "Cannot find /nfs/tmp/ for uploading final documents."; exit 1)'',
      ''[ -d "person.json" ] && tar -czf person.json.tgz person.json'',
      ''[ -s "person.json.tgz" ] && s3cmd put person.json.tgz s3://bucket/out/person.json.tgz'',
      ''[ -d "organization.json" ] && tar -czf organization.json.tgz organization.json'',
      ''[ -s "organization.json.tgz" ] && s3cmd put organization.json.tgz s3://bucket/out/organization.json.tgz'',
      ''[ -d "index.json" ] && tar -czf index.json.tgz index.json'',
      ''[ -s "index.json.tgz" ] && s3cmd put index.json.tgz s3://bucket/out/index.json.tgz'',
      ''[ -d "event.json" ] && tar -czf event.json.tgz event.json'',
      ''[ -s "event.json.tgz" ] && s3cmd put event.json.tgz s3://bucket/out/event.json.tgz'']\<close>
proof -
  have t: "transfer_lines (environment (ex_state ex_table)) (catalog_of ex_world) =
      transfer_lines ex_table ex_entities"
    by (simp add: catalog_of_ex_world)
  show ?thesis
    by (simp only: written_lines_transfer(2) [OF t [unfolded ex_transfer_lines]])
       (simp add: script_lines_concat split_nl_single no_newline_Cons)
qed

subsection \<open>Guards\<close>

text \<open>
  Claim C4 (as amended). Let \<^verbatim>\<open>write_transfer_script\<close> return, and let no path of the table
  and no file name of the catalog hold a newline. Then the written download script is the
  interpreter line, the line \<^verbatim>\<open>mkdir -p <tmp>raw <tmp>parquet <tmp>json\<close> and further
  lines; the written upload script is the interpreter line and further lines; and each of
  the further lines either begins with an existence guard (\<^verbatim>\<open>[ -d\<close> or \<^verbatim>\<open>[ -s\<close>) or
  is exactly one of the lines written without a guard: in the download script the line
  \<^verbatim>\<open>s3cmd get --force <intermediate>identifier.parquet.tgz identifier.parquet.tgz\<close> when the
  intermediate path starts with \<^verbatim>\<open>s3\<close>, and a line \<^verbatim>\<open>s3cmd get --force <source><file> <file>\<close> of a file
  of the catalog or the empty line when the source path starts with \<^verbatim>\<open>s3\<close>; in the upload
  script the line \<^verbatim>\<open>cd <tmp>json || (echo "Cannot find <tmp> for uploading final documents."; exit 1)\<close>
  when the target path starts with \<^verbatim>\<open>s3\<close>.
\<close>

theorem script_lines_guarded_or_listed:
  assumes "write_transfer_script w st = Inr st'"
    and "list_all no_newline (path_values (environment st))"
    and "list_all no_newline (leaf_files (catalog_of w))"
  shows "\<exists>dl ul.
      written_lines (download_file_name w) (write_transfer_script w st) =
        ''#!/bin/bash'' # mkdir_line (temporary_path_of (environment st)) # dl
    \<and> list_all (download_line_ok (intermediate_path_of (environment st))
                  (source_path_of (environment st)) (leaf_files (catalog_of w))) dl
    \<and> written_lines (upload_file_name w) (write_transfer_script w st) = ''#!/bin/bash'' # ul
    \<and> list_all (upload_line_ok (temporary_path_of (environment st))
                  (target_path_of (environment st))) ul"
proof -
  let ?table = "environment st" and ?cat = "catalog_of w"
  let ?tmp = "temporary_path_of ?table" and ?src = "source_path_of ?table"
  let ?int = "intermediate_path_of ?table" and ?tgt = "target_path_of ?table"
  let ?P = "download_line_ok ?int ?src (leaf_files ?cat)"
  let ?Q = "\<lambda>e. list_all ?P (split_nl e)"
  let ?U = "upload_line_ok ?tmp ?tgt"
  from assms(1) obtain download_lines upload_lines
    where t: "transfer_lines ?table ?cat = Inr (download_lines, upload_lines)"
    by (rule write_transfer_script_returns)
  from assms(2) have nl: "no_newline ?tmp" "no_newline ?src" "no_newline ?int" "no_newline ?tgt"
    by (simp_all add: path_values_def temporary_path_of_def source_path_of_def
        intermediate_path_of_def target_path_of_def no_newline_normalize)
  have bash: "split_nl ''#!/bin/bash'' = [''#!/bin/bash'']"
    by (rule split_nl_single) (simp add: no_newline_Cons)
  have mkdir: "split_nl (mkdir_line ?tmp) = [mkdir_line ?tmp]"
    by (rule split_nl_single) (rule mkdir_line_no_newline [OF nl(1)])
  have index: "list_all ?Q (if startswith ?int ''s3'' then index_download ?tmp ?int else [])"
    using index_download_ok [OF nl(1) nl(3)] by (simp add: plain_lines_ok)
  have raw: "?Q (raw_directory_line ?tmp)"
    using raw_directory_line_ok [OF nl(1)] by (simp add: split_nl_single)
  have up: "list_all (\<lambda>e. list_all ?U (split_nl e))
      ((if startswith ?int ''s3'' then index_upload ?tmp ?int else []) @
       (if startswith ?tgt ''s3'' then target_upload ?tmp ?tgt else []))"
    using index_upload_ok [OF nl(1) nl(3)] target_upload_ok [OF nl(1) nl(4)]
    by (simp add: plain_lines_ok)
  obtain rest where dl: "download_lines = ''#!/bin/bash'' # mkdir_line ?tmp # rest"
    and rest: "list_all ?Q rest"
  proof (cases "startswith ?src ''s3''")
    case True
    with t obtain added where
      added: "source_loop ?src ?cat (map fst ?cat) [] = Inr added"
      and d: "download_lines = download_header ?tmp @
          (if startswith ?int ''s3'' then index_download ?tmp ?int else []) @
          raw_directory_line ?tmp # added"
      by (auto simp: transfer_lines_eq and_then_def split: sum.splits)
    from added have "list_all ?Q added"
      by (rule source_loop_ok [OF nl(2) assms(3) True])
    with index raw have "list_all ?Q
         ((if startswith ?int ''s3'' then index_download ?tmp ?int else []) @
          raw_directory_line ?tmp # added)"
      by simp
    moreover have "download_lines = ''#!/bin/bash'' # mkdir_line ?tmp #
         ((if startswith ?int ''s3'' then index_download ?tmp ?int else []) @
          raw_directory_line ?tmp # added)"
      by (simp add: d download_header_eq)
    ultimately show ?thesis by (rule that [rotated])
  next
    case False
    with t have d: "download_lines = download_header ?tmp @
          (if startswith ?int ''s3'' then index_download ?tmp ?int else [])"
      by (auto simp: transfer_lines_eq)
    have "download_lines = ''#!/bin/bash'' # mkdir_line ?tmp #
          (if startswith ?int ''s3'' then index_download ?tmp ?int else [])"
      by (simp add: d download_header_eq)
    then show ?thesis using index by (rule that)
  qed
  have ul: "upload_lines = ''#!/bin/bash'' #
      ((if startswith ?int ''s3'' then index_upload ?tmp ?int else []) @
       (if startswith ?tgt ''s3'' then target_upload ?tmp ?tgt else []))"
    using t by (auto simp: transfer_lines_eq and_then_def split: sum.splits if_splits)
  have "script_lines download_lines =
      ''#!/bin/bash'' # mkdir_line ?tmp # concat (map split_nl rest)"
    by (simp add: dl script_lines_concat bash mkdir)
  moreover have "list_all ?P (concat (map split_nl rest))"
    using rest by (rule list_all_concat_split)
  moreover have "script_lines upload_lines = ''#!/bin/bash'' # concat (map split_nl
      ((if startswith ?int ''s3'' then index_upload ?tmp ?int else []) @
       (if startswith ?tgt ''s3'' then target_upload ?tmp ?tgt else [])))"
    by (subst ul) (simp only: script_lines_concat list.simps bash concat.simps append.simps
        not_Cons_self2 simp_thms)
  moreover have "list_all ?U (concat (map split_nl
      ((if startswith ?int ''s3'' then index_upload ?tmp ?int else []) @
       (if startswith ?tgt ''s3'' then target_upload ?tmp ?tgt else []))))"
    using up by (rule list_all_concat_split)
  ultimately show ?thesis
    by (simp add: written_lines_transfer [OF t])
qed

theorem script_lines_guarded_or_listed_witness:
  "\<exists>dl ul.
      written_lines (download_file_name ex_world)
        (write_transfer_script ex_world (ex_state ex_table)) =
        ''#!/bin/bash'' # mkdir_line ''/nfs/tmp/'' # dl
    \<and> list_all (download_line_ok ''s3://bucket/int/'' ''s3://bucket/src/''
                  [''a.csv'', ''b.csv'', ''k1.csv'']) dl
    \<and> written_lines (upload_file_name ex_world)
        (write_transfer_script ex_world (ex_state ex_table)) = ''#!/bin/bash'' # ul
    \<and> list_all (upload_line_ok ''/nfs/tmp/'' ''s3://bucket/out/'') ul"
proof -
  have "well_shaped (catalog_of ex_world)"
    by (simp add: catalog_of_ex_world ex_entities_well_shaped)
  then obtain st' where r: "write_transfer_script ex_world (ex_state ex_table) = Inr st'"
    using write_transfer_script_well_shaped by blast
  have p: "list_all no_newline (path_values (environment (ex_state ex_table)))"
    by (simp add: ex_table_no_newline)
  have f: "list_all no_newline (leaf_files (catalog_of ex_world))"
    by (simp add: catalog_of_ex_world ex_leaf_files no_newline_Cons)
  from script_lines_guarded_or_listed [OF r p f] show ?thesis
    by (simp add: ex_table_paths catalog_of_ex_world ex_leaf_files)
qed

text \<open>
  Not every line after the interpreter line begins with a guard. In the scripts of the
  example table the \<^verbatim>\<open>mkdir -p\<close> line, the fetch line of the index archive, the fetch
  lines of the files, the empty line of the entity without files and the
  \<^verbatim>\<open>cd ... || (...; exit 1)\<close> line of the upload script are all written without one. And a newline in
  the temporary path breaks the \<^verbatim>\<open>mkdir -p\<close> line into lines that are neither guarded
  nor among the lines listed above.
\<close>

lemma newline_temporary_paths:
  "temporary_path_of ex_newline_temporary_table = ''a\<newline>b/''"
  "source_path_of ex_newline_temporary_table = ''/nfsmount/''"
  "intermediate_path_of ex_newline_temporary_table = ''/nfsmount/''"
  "target_path_of ex_newline_temporary_table = ''/nfsmount/''"
  by (simp_all add: temporary_path_of_def source_path_of_def intermediate_path_of_def
      target_path_of_def ex_newline_temporary_table_def environment_get_def normalize_path_def
      str_replace_Cons str_replace_Nil startswith_def)

lemma newline_temporary_lines:
  "written_lines (download_file_name ex_world)
       (write_transfer_script ex_world (ex_state ex_newline_temporary_table)) =
     [''#!/bin/bash'', ''mkdir -p a'', ''b/raw a'', ''b/parquet a'', ''b/json'']"
proof -
  have t: "transfer_lines (environment (ex_state ex_newline_temporary_table))
      (catalog_of ex_world) =
      Inr (download_header ''a\<newline>b/'', [''#!/bin/bash''])"
    by (simp add: transfer_lines_eq newline_temporary_paths startswith_def)
  show ?thesis
    by (simp only: written_lines_transfer(1) [OF t])
       (simp add: script_lines_def download_header_def)
qed

theorem unguarded_lines_counterexample:
  \<open>written_lines (download_file_name ex_world)
       (write_transfer_script ex_world (ex_state ex_table)) =
     [''#!/bin/bash'',
      ''mkdir -p /nfs/tmp/raw /nfs/tmp/parquet /nfs/tmp/json'',
      ''[ -d "/nfs/tmp/parquet/" ] && cd /nfs/tmp/parquet/ && pwd'',
      ''s3cmd get --force s3://bucket/int/identifier.parquet.tgz identifier.parquet.tgz'',
      ''[ -s "identifier.parquet.tgz" ] && tar -xzf identifier.parquet.tgz'',
      ''[ -s "identifier.parquet.tgz" ] && rm identifier.parquet.tgz'',
      ''[ -d "/nfs/tmp/raw" ] && cd /nfs/tmp/raw && pwd'',
      ''s3cmd get --force s3://bucket/src/a.csv a.csv'',
      ''s3cmd get --force s3://bucket/src/b.csv b.csv'',
      ''s3cmd get --force s3://bucket/src/k1.csv k1.csv'',
      [],
      []]
   \<and> written_lines (upload_file_name ex_world)
       (write_transfer_script ex_world (ex_state ex_table)) ! 4 =
     ''cd /nfs/tmp/json || (echo "Cannot find /nfs/tmp/ for uploading final documents."; exit 1)''
   \<and> \<not> existence_guarded ''mkdir -p /nfs/tmp/raw /nfs/tmp/parquet /nfs/tmp/json''
   \<and> \<not> existence_guarded
         ''s3cmd get --force s3://bucket/int/identifier.parquet.tgz identifier.parquet.tgz''
   \<and> \<not> existence_guarded ''s3cmd get --force s3://bucket/src/a.csv a.csv''
   \<and> \<not> existence_guarded []
   \<and> \<not> existence_guarded
         ''cd /nfs/tmp/json || (echo "Cannot find /nfs/tmp/ for uploading final documents."; exit 1)''
   \<and> written_lines (download_file_name ex_world)
       (write_transfer_script ex_world (ex_state ex_newline_temporary_table)) =
     [''#!/bin/bash'', ''mkdir -p a'', ''b/raw a'', ''b/parquet a'', ''b/json'']
   \<and> \<not> download_line_ok (intermediate_path_of ex_newline_temporary_table)
         (source_path_of ex_newline_temporary_table) (leaf_files (catalog_of ex_world))
         ''b/raw a''\<close>
  by (simp add: ex_download_lines ex_upload_lines newline_temporary_lines
      newline_temporary_paths existence_guarded_def download_line_ok_def startswith_def)

subsection \<open>One fetch line for each leaf file\<close>

text \<open>
  Claim C5 (as amended). Let the names of the catalog be unique, the entity
  \<^verbatim>\<open>kpis\<close> a list of groups and every other entity flat, and let neither a file name
  of the catalog nor the source path hold a newline. When the normalized source path starts
  with the two characters \<^verbatim>\<open>s3\<close>, the written download script is the script of the empty
  catalog followed by the lines of the loop, and the non-empty lines among these are the
  lines \<^verbatim>\<open>s3cmd get --force <source><file> <file>\<close>, one for each leaf file of the catalog in
  its order, across both shapes (an entity without files adds an empty line). When the
  normalized source path does not start with \<^verbatim>\<open>s3\<close>, the written download script is the
  header and the index block only: the catalog adds no line.
\<close>

theorem one_fetch_line_per_leaf_file:
  assumes "well_shaped (catalog_of w)"
    and "list_all no_newline (leaf_files (catalog_of w))"
    and "no_newline (environment_get (environment st) ''C360_SOURCE_PATH'' ''/nfsmount/'')"
  shows "(startswith (source_path_of (environment st)) ''s3'' \<longrightarrow>
           (\<exists>added.
              written_lines (download_file_name w) (write_transfer_script w st) =
                script_lines
                  (download_header (temporary_path_of (environment st)) @
                   (if startswith (intermediate_path_of (environment st)) ''s3''
                    then index_download (temporary_path_of (environment st))
                           (intermediate_path_of (environment st))
                    else []) @
                   [raw_directory_line (temporary_path_of (environment st))]) @ added \<and>
              filter (\<lambda>l. l \<noteq> []) added =
                map (fetch_line (source_path_of (environment st))) (leaf_files (catalog_of w))))
     \<and> (\<not> startswith (source_path_of (environment st)) ''s3'' \<longrightarrow>
           written_lines (download_file_name w) (write_transfer_script w st) =
             script_lines
               (download_header (temporary_path_of (environment st)) @
                (if startswith (intermediate_path_of (environment st)) ''s3''
                 then index_download (temporary_path_of (environment st))
                        (intermediate_path_of (environment st))
                 else [])))"
proof (intro conjI impI)
  let ?table = "environment st" and ?cat = "catalog_of w"
  let ?src = "source_path_of ?table"
  let ?groups = "concat (map (\<lambda>(name, e). entity_groups ?src e) ?cat)"
  let ?base = "download_header (temporary_path_of ?table) @
      (if startswith (intermediate_path_of ?table) ''s3''
       then index_download (temporary_path_of ?table) (intermediate_path_of ?table) else []) @
      [raw_directory_line (temporary_path_of ?table)]"
  assume remote: "startswith ?src ''s3''"
  from assms(3) have src: "no_newline ?src"
    by (simp add: source_path_of_def no_newline_normalize)
  obtain ul where full: "transfer_lines ?table ?cat = Inr (?base @ ?groups, ul)"
    using remote by (simp add: transfer_lines_eq source_loop_catalog [OF assms(1)] and_then_def)
  have "?base \<noteq> []" by (simp add: download_header_def)
  then have "script_lines (?base @ ?groups) = script_lines ?base @ concat (map split_nl ?groups)"
    by (simp add: script_lines_concat)
  moreover have "filter (\<lambda>l. l \<noteq> []) (concat (map split_nl ?groups)) =
      map (fetch_line ?src) (leaf_files ?cat)"
    using src assms(2) by (rule filter_catalog_groups)
  ultimately show "\<exists>added.
      written_lines (download_file_name w) (write_transfer_script w st) =
        script_lines ?base @ added \<and>
      filter (\<lambda>l. l \<noteq> []) added = map (fetch_line ?src) (leaf_files ?cat)"
    by (simp only: written_lines_transfer(1) [OF full]) blast
next
  let ?table = "environment st" and ?cat = "catalog_of w"
  assume local: "\<not> startswith (source_path_of ?table) ''s3''"
  then obtain ul where "transfer_lines ?table ?cat =
      Inr (download_header (temporary_path_of ?table) @
           (if startswith (intermediate_path_of ?table) ''s3''
            then index_download (temporary_path_of ?table) (intermediate_path_of ?table)
            else []), ul)"
    by (simp add: transfer_lines_eq)
  then show "written_lines (download_file_name w) (write_transfer_script w st) =
      script_lines
        (download_header (temporary_path_of ?table) @
         (if startswith (intermediate_path_of ?table) ''s3''
          then index_download (temporary_path_of ?table) (intermediate_path_of ?table)
          else []))"
    by (rule written_lines_transfer(1))
qed

theorem one_fetch_line_per_leaf_file_witness:
  "(\<exists>added.
      written_lines (download_file_name ex_world)
        (write_transfer_script ex_world (ex_state ex_table)) =
        script_lines
          (download_header ''/nfs/tmp/'' @ index_download ''/nfs/tmp/'' ''s3://bucket/int/'' @
           [raw_directory_line ''/nfs/tmp/'']) @ added \<and>
      filter (\<lambda>l. l \<noteq> []) added =
        [''s3cmd get --force s3://bucket/src/a.csv a.csv'',
         ''s3cmd get --force s3://bucket/src/b.csv b.csv'',
         ''s3cmd get --force s3://bucket/src/k1.csv k1.csv''])
   \<and> written_lines (download_file_name ex_world)
        (write_transfer_script ex_world (ex_state ex_local_table)) =
        script_lines (download_header ''/nfs/tmp/'')"
proof
  have ws: "well_shaped (catalog_of ex_world)"
    by (simp add: catalog_of_ex_world ex_entities_well_shaped)
  have f: "list_all no_newline (leaf_files (catalog_of ex_world))"
    by (simp add: catalog_of_ex_world ex_leaf_files no_newline_Cons)
  have s: "no_newline (environment_get (environment (ex_state ex_table))
      ''C360_SOURCE_PATH'' ''/nfsmount/'')"
    by (simp add: ex_table_def environment_get_def no_newline_Cons)
  have r: "startswith (source_path_of (environment (ex_state ex_table))) ''s3''"
    by (simp add: ex_table_paths startswith_def)
  have m: "map (fetch_line ''s3://bucket/src/'') (leaf_files ex_entities) =
        [''s3cmd get --force s3://bucket/src/a.csv a.csv'',
         ''s3cmd get --force s3://bucket/src/b.csv b.csv'',
         ''s3cmd get --force s3://bucket/src/k1.csv k1.csv'']"
    by (simp add: ex_leaf_files fetch_line_def)
  from one_fetch_line_per_leaf_file [OF ws f s] r
  have "\<exists>added.
      written_lines (download_file_name ex_world)
        (write_transfer_script ex_world (ex_state ex_table)) =
        script_lines
          (download_header (temporary_path_of (environment (ex_state ex_table))) @
           (if startswith (intermediate_path_of (environment (ex_state ex_table))) ''s3''
            then index_download (temporary_path_of (environment (ex_state ex_table)))
                   (intermediate_path_of (environment (ex_state ex_table)))
            else []) @
           [raw_directory_line (temporary_path_of (environment (ex_state ex_table)))]) @ added \<and>
      filter (\<lambda>l. l \<noteq> []) added =
        map (fetch_line (source_path_of (environment (ex_state ex_table))))
          (leaf_files (catalog_of ex_world))"
    by blast
  then show "\<exists>added.
      written_lines (download_file_name ex_world)
        (write_transfer_script ex_world (ex_state ex_table)) =
        script_lines
          (download_header ''/nfs/tmp/'' @ index_download ''/nfs/tmp/'' ''s3://bucket/int/'' @
           [raw_directory_line ''/nfs/tmp/'']) @ added \<and>
      filter (\<lambda>l. l \<noteq> []) added =
        [''s3cmd get --force s3://bucket/src/a.csv a.csv'',
         ''s3cmd get --force s3://bucket/src/b.csv b.csv'',
         ''s3cmd get --force s3://bucket/src/k1.csv k1.csv'']"
    by (simp add: catalog_of_ex_world m ex_table_paths startswith_def)
  have s': "no_newline (environment_get (environment (ex_state ex_local_table))
      ''C360_SOURCE_PATH'' ''/nfsmount/'')"
    by (simp add: ex_local_table_def environment_get_def no_newline_Cons)
  have l: "\<not> startswith (source_path_of (environment (ex_state ex_local_table))) ''s3''"
    by (simp add: ex_local_table_paths startswith_def)
  from one_fetch_line_per_leaf_file [OF ws f s'] l
  have "written_lines (download_file_name ex_world)
        (write_transfer_script ex_world (ex_state ex_local_table)) =
      script_lines
        (download_header (temporary_path_of (environment (ex_state ex_local_table))) @
         (if startswith (intermediate_path_of (environment (ex_state ex_local_table))) ''s3''
          then index_download (temporary_path_of (environment (ex_state ex_local_table)))
                 (intermediate_path_of (environment (ex_state ex_local_table)))
          else []))"
    by blast
  then show "written_lines (download_file_name ex_world)
        (write_transfer_script ex_world (ex_state ex_local_table)) =
        script_lines (download_header ''/nfs/tmp/'')"
    by (simp add: ex_local_table_paths startswith_def)
qed

text \<open>
  The test for a remote source path is the prefix \<^verbatim>\<open>s3\<close>, not the scheme marker
  \<^verbatim>\<open>s3:\<close>: the local directory \<^verbatim>\<open>s3data/\<close> is a source path for which the fetch lines are
  written. And a file name that holds a newline gives more fetch lines than files: the one
  file below gives three lines that start with \<^verbatim>\<open>s3cmd get --force\<close>.
\<close>

lemma source_directory_paths:
  "temporary_path_of ex_source_directory_table = ''/nfsmount/''"
  "source_path_of ex_source_directory_table = ''s3data/''"
  "intermediate_path_of ex_source_directory_table = ''/nfsmount/''"
  "target_path_of ex_source_directory_table = ''/nfsmount/''"
  by (simp_all add: temporary_path_of_def source_path_of_def intermediate_path_of_def
      target_path_of_def ex_source_directory_table_def environment_get_def normalize_path_def
      str_replace_Cons str_replace_Nil startswith_def)

lemma remote_source_paths:
  "temporary_path_of ex_remote_source_table = ''/nfsmount/''"
  "source_path_of ex_remote_source_table = ''s3://bucket/src/''"
  "intermediate_path_of ex_remote_source_table = ''/nfsmount/''"
  "target_path_of ex_remote_source_table = ''/nfsmount/''"
  by (simp_all add: temporary_path_of_def source_path_of_def intermediate_path_of_def
      target_path_of_def ex_remote_source_table_def environment_get_def normalize_path_def
      str_replace_Cons str_replace_Nil startswith_def)

lemma source_directory_lines:
  \<open>written_lines (download_file_name ex_world)
       (write_transfer_script ex_world (ex_state ex_source_directory_table)) =
     [''#!/bin/bash'',
      ''mkdir -p /nfsmount/raw /nfsmount/parquet /nfsmount/json'',
      ''[ -d "/nfsmount/raw" ] && cd /nfsmount/raw && pwd'',
      ''s3cmd get --force s3data/a.csv a.csv'',
      ''s3cmd get --force s3data/b.csv b.csv'',
      ''s3cmd get --force s3data/k1.csv k1.csv'',
      [],
      []]\<close>
proof -
  have t: "transfer_lines (environment (ex_state ex_source_directory_table))
      (catalog_of ex_world) =
      Inr (download_header ''/nfsmount/'' @
           [raw_directory_line ''/nfsmount/'', fetch_group ''s3data/'' [''a.csv'', ''b.csv''],
            fetch_group ''s3data/'' [''k1.csv''], fetch_group ''s3data/'' [],
            fetch_group ''s3data/'' []], [''#!/bin/bash''])"
    by (simp add: transfer_lines_eq source_directory_paths catalog_of_ex_world ex_source_loop
        and_then_def startswith_def)
  show ?thesis
    by (simp only: written_lines_transfer(1) [OF t])
       (simp add: script_lines_concat split_fetch_group split_nl_single no_newline_Cons
         fetch_line_def download_header_def raw_directory_line_def)
qed

lemma newline_leaf_lines:
  \<open>written_lines (download_file_name (ex_catalog_world ex_newline_entities))
       (write_transfer_script (ex_catalog_world ex_newline_entities)
          (ex_state ex_remote_source_table)) =
     [''#!/bin/bash'',
      ''mkdir -p /nfsmount/raw /nfsmount/parquet /nfsmount/json'',
      ''[ -d "/nfsmount/raw" ] && cd /nfsmount/raw && pwd'',
      ''s3cmd get --force s3://bucket/src/a'',
      ''s3cmd get --force b a'',
      ''s3cmd get --force b'']\<close>
proof -
  have t: "transfer_lines (environment (ex_state ex_remote_source_table))
      (catalog_of (ex_catalog_world ex_newline_entities)) =
      Inr (download_header ''/nfsmount/'' @
           [raw_directory_line ''/nfsmount/'',
            fetch_line ''s3://bucket/src/'' ''a\<newline>s3cmd get --force b''],
           [''#!/bin/bash''])"
    by (simp add: transfer_lines_eq remote_source_paths catalog_of_ex_catalog_world
        ex_newline_entities_def entity_download_def fetch_group_def source_files_def
        get_or_def and_then_def startswith_def)
  have f: "split_nl (fetch_line ''s3://bucket/src/'' ''a\<newline>s3cmd get --force b'') =
      [''s3cmd get --force s3://bucket/src/a'', ''s3cmd get --force b a'',
       ''s3cmd get --force b'']"
    by (simp add: fetch_line_def)
  show ?thesis
    by (simp only: written_lines_transfer(1) [OF t])
       (simp add: script_lines_concat f split_nl_single no_newline_Cons
         download_header_def raw_directory_line_def)
qed

theorem fetch_lines_counterexample:
  \<open>\<not> startswith (source_path_of ex_source_directory_table) ''s3:''
   \<and> written_lines (download_file_name ex_world)
       (write_transfer_script ex_world (ex_state ex_source_directory_table)) =
     [''#!/bin/bash'',
      ''mkdir -p /nfsmount/raw /nfsmount/parquet /nfsmount/json'',
      ''[ -d "/nfsmount/raw" ] && cd /nfsmount/raw && pwd'',
      ''s3cmd get --force s3data/a.csv a.csv'',
      ''s3cmd get --force s3data/b.csv b.csv'',
      ''s3cmd get --force s3data/k1.csv k1.csv'',
      [],
      []]
   \<and> leaf_files (catalog_of (ex_catalog_world ex_newline_entities)) =
       [''a\<newline>s3cmd get --force b'']
   \<and> written_lines (download_file_name (ex_catalog_world ex_newline_entities))
       (write_transfer_script (ex_catalog_world ex_newline_entities)
          (ex_state ex_remote_source_table)) =
     [''#!/bin/bash'',
      ''mkdir -p /nfsmount/raw /nfsmount/parquet /nfsmount/json'',
      ''[ -d "/nfsmount/raw" ] && cd /nfsmount/raw && pwd'',
      ''s3cmd get --force s3://bucket/src/a'',
      ''s3cmd get --force b a'',
      ''s3cmd get --force b'']\<close>
  by (simp add: source_directory_lines newline_leaf_lines source_directory_paths
      catalog_of_ex_catalog_world startswith_def)
     (simp add: leaf_files_def ex_newline_entities_def source_files_def get_or_def)

subsection \<open>Classification of the paths\<close>









end
